theory Spec2Isabelle
  imports Main "HOL-Library.AList"
begin

section \<open>The Go runtime and the standard library, as far as the validator uses them\<close>

text \<open>
  A Go \<open>string\<close> is a sequence of bytes and \<open>len\<close> counts bytes; so does
  \<^typ>\<open>string\<close> here. A run-time panic is a value: every function of the package that
  can panic returns \<open>error + 'a\<close>, with \<open>Inl\<close> for the panic.
\<close>

datatype error = IndexOutOfRange

text \<open>\<open>xs[i]\<close> on a slice: in range, or the run-time panic.\<close>

definition index :: "'a list \<Rightarrow> nat \<Rightarrow> error + 'a" where
  "index xs i = (if i < length xs then Inr (xs ! i) else Inl IndexOutOfRange)"

text \<open>
  \<open>strings.Split(s, sep)\<close> for a separator of one byte (the package splits on
  \<open>|\<close>, \<open>:\<close> and \<open>,\<close> only): the pieces between the separators, one more than
  there are separators, so never an empty slice.
\<close>

fun Split :: "string \<Rightarrow> char \<Rightarrow> string list" where
  "Split [] sep = [[]]"
| "Split (c # s) sep =
     (if c = sep then [] # Split s sep
      else (case Split s sep of p # ps \<Rightarrow> (c # p) # ps | [] \<Rightarrow> [[c]]))"

text \<open>
  \<open>strings.Count(s, substr)\<close> for a non-empty \<open>substr\<close>: the number of
  non-overlapping occurrences, found from the left. (For the empty \<open>substr\<close> Go counts
  code points; the package only ever passes \<open>"%s"\<close>.)
\<close>

fun Count :: "string \<Rightarrow> string \<Rightarrow> nat" where
  "Count [] substr = 0"
| "Count (c # s) substr =
     (if substr \<noteq> [] \<and> take (length substr) (c # s) = substr
      then Suc (Count (drop (length substr - 1) s) substr)
      else Count s substr)"

definition HasPrefix :: "string \<Rightarrow> string \<Rightarrow> bool" where
  "HasPrefix s p = (take (length p) s = p)"

definition TrimPrefix :: "string \<Rightarrow> string \<Rightarrow> string" where
  "TrimPrefix s p = (if HasPrefix s p then drop (length p) s else s)"

definition digits :: string where
  "digits = ''0123456789''"

definition lower :: string where
  "lower = ''abcdefghijklmnopqrstuvwxyz''"

definition upper :: string where
  "upper = ''ABCDEFGHIJKLMNOPQRSTUVWXYZ''"

definition isDigit :: "char \<Rightarrow> bool" where
  "isDigit c = (c \<in> set digits)"

definition isLetter :: "char \<Rightarrow> bool" where
  "isLetter c = (c \<in> set lower \<or> c \<in> set upper)"

text \<open>
  \<open>strconv.ParseInt(s, 10, bitSize)\<close>: an optional sign, then one or more decimal
  digits (no underscores in base 10), and the value within the signed range of
  \<open>bitSize\<close> bits. \<open>None\<close> is \<open>err != nil\<close> (syntax or range).
\<close>

definition digitsValue :: "string \<Rightarrow> nat" where
  "digitsValue ds = foldl (\<lambda>n c. 10 * n + (of_char c - 48)) 0 ds"

definition ParseInt :: "string \<Rightarrow> nat \<Rightarrow> int option" where
  "ParseInt s bitSize =
     (let neg = (take 1 s = ''-'');
          ds = (if take 1 s = ''+'' \<or> take 1 s = ''-'' then drop 1 s else s);
          un = digitsValue ds;
          cutoff = 2 ^ (bitSize - 1)
      in if ds = [] \<or> \<not> list_all isDigit ds then None
         else if \<not> neg \<and> cutoff \<le> un then None
         else if neg \<and> cutoff < un then None
         else Some (if neg then - int un else int un))"

text \<open>\<open>strconv.ParseBool\<close> accepts exactly these twelve literals.\<close>

definition ParseBool :: "string \<Rightarrow> bool option" where
  "ParseBool s =
     (if s \<in> set [''1'', ''t'', ''T'', ''TRUE'', ''true'', ''True''] then Some True
      else if s \<in> set [''0'', ''f'', ''F'', ''FALSE'', ''false'', ''False''] then Some False
      else None)"

text \<open>
  The rest of the library is a parameter of the model: the functions whose result
  depends on IEEE floating point, on Go's date layouts, on the regular-expression
  engine, on Unicode tables or on the network. \<open>'f\<close> stands for \<open>float64\<close> and
  \<open>'r\<close> for a compiled \<open>*regexp.Regexp\<close>. A function that returns an \<open>error\<close> in
  Go returns \<open>None\<close> (or \<open>False\<close>, where only \<open>err == nil\<close> is read) here.
  \<^item> \<open>ParseFloat s\<close> is \<open>strconv.ParseFloat(s, 64)\<close>; Go reads every bit size other
    than 32 as 64, so the calls with bit size 16 are the same function.
  \<^item> \<open>float_le a b\<close> is \<open>a <= b\<close> and \<open>float_eq a b\<close> is \<open>a == b\<close> on \<open>float64\<close>.
  \<^item> \<open>time_Parse layout value\<close> says that \<open>time.Parse\<close> returned no error.
  \<^item> \<open>ParseIP s\<close> says that \<open>net.ParseIP(s)\<close> is not nil, \<open>LookupHost h\<close> that
    \<open>net.LookupHost(h)\<close> returned no error.
  \<^item> \<open>Compile\<close> is \<open>regexp.Compile\<close> and \<open>MatchString\<close> the method of its result.
  \<^item> \<open>ToLower\<close> is \<open>strings.ToLower\<close>.
  \<^item> \<open>Sprintf_other\<close> is \<open>fmt.Sprintf\<close> on the formats that \<open>doPrintf\<close> below
    does not model.
\<close>

record ('f, 'r) stdlib =
  ParseFloat :: "string \<Rightarrow> 'f option"
  float_le :: "'f \<Rightarrow> 'f \<Rightarrow> bool"
  float_eq :: "'f \<Rightarrow> 'f \<Rightarrow> bool"
  time_Parse :: "string \<Rightarrow> string \<Rightarrow> bool"
  ParseIP :: "string \<Rightarrow> bool"
  LookupHost :: "string \<Rightarrow> bool"
  Compile :: "string \<Rightarrow> 'r option"
  MatchString :: "'r \<Rightarrow> string \<Rightarrow> bool"
  ToLower :: "string \<Rightarrow> string"
  Sprintf_other :: "string \<Rightarrow> string list \<Rightarrow> string"

text \<open>
  \<open>fmt.Sprintf(format, args...)\<close> with string operands, for the formats whose
  directives are \<open>%s\<close> and \<open>%%\<close>, written without flags, width or precision:
  \<^item> text outside a directive is copied;
  \<^item> \<open>%%\<close> prints one percent sign and uses no operand;
  \<^item> \<open>%s\<close> prints the next operand as it is, or \<open>%!s(MISSING)\<close> when none is left;
  \<^item> operands left over at the end are reported as \<open>%!(EXTRA string=a, string=b)\<close>.
  \<open>doPrintf\<close> is \<open>None\<close> on every other format (another verb, a flag, a width, a
  percent sign at the very end); \<open>Sprintf\<close> then asks the library parameter.
\<close>

fun join :: "string list \<Rightarrow> string \<Rightarrow> string" where
  "join [] sep = []"
| "join [a] sep = a"
| "join (a # b # bs) sep = a @ sep @ join (b # bs) sep"

definition extraArgs :: "string list \<Rightarrow> string" where
  "extraArgs args =
     (if args = [] then []
      else ''%!(EXTRA '' @ join (map (\<lambda>a. ''string='' @ a) args) '', '' @ '')'')"

fun doPrintf :: "string \<Rightarrow> string list \<Rightarrow> string option" where
  "doPrintf [] args = Some (extraArgs args)"
| "doPrintf [c] args = (if c = CHR ''%'' then None else Some (c # extraArgs args))"
| "doPrintf (c # d # fmt) args =
     (if c \<noteq> CHR ''%'' then map_option ((#) c) (doPrintf (d # fmt) args)
      else if d = CHR ''%'' then map_option ((#) CHR ''%'') (doPrintf fmt args)
      else if d = CHR ''s'' then
        (case args of
           [] \<Rightarrow> map_option ((@) ''%!s(MISSING)'') (doPrintf fmt [])
         | a # rest \<Rightarrow> map_option ((@) a) (doPrintf fmt rest))
      else None)"

definition Sprintf :: "('f, 'r) stdlib \<Rightarrow> string \<Rightarrow> string list \<Rightarrow> string" where
  "Sprintf lib fmt args =
     (case doPrintf fmt args of Some s \<Rightarrow> s | None \<Rightarrow> Sprintf_other lib fmt args)"


section \<open>The validators\<close>

text \<open>
  \<open>type Validator func(name string, value string, inputs map[string]string,
  params []string) bool\<close>. The submitted values are a map from field name to value; a
  validator returns its verdict or panics.
\<close>

type_synonym inputs = "string \<rightharpoonup> string"

type_synonym Validator = "string \<Rightarrow> string \<Rightarrow> inputs \<Rightarrow> string list \<Rightarrow> error + bool"

text \<open>Sequencing: a panic in the first step is the result, otherwise the second step runs.\<close>

definition andThen :: "error + 'a \<Rightarrow> ('a \<Rightarrow> error + 'b) \<Rightarrow> error + 'b" where
  "andThen r f = (case r of Inl e \<Rightarrow> Inl e | Inr x \<Rightarrow> f x)"

fun stringInSlice :: "string \<Rightarrow> string list \<Rightarrow> bool" where
  "stringInSlice needle [] = False"
| "stringInSlice needle (val # haystack) =
     (if val = needle then True else stringInSlice needle haystack)"

text \<open>
  The patterns that the package compiles with \<open>regexp.MustCompile\<close> are constants
  and valid, so compiling them never panics, and each is a test on the bytes of the
  value: \<open>^\<close> and \<open>$\<close> are the two ends of the text, and a class of ASCII
  characters matches no byte of a longer code point.
  \<^item> \<open>^[a-zA-Z]+$\<close>, \<open>^[a-zA-Z0-9-_]+$\<close>, \<open>^[a-zA-Z0-9]+$\<close>, \<open>^[0-9]+$\<close>:
    one or more bytes, all of the class.
  \<^item> \<open>^[a-zA-Z0-9._%+-]+@[a-zA-Z0-9.-]+\.[a-zA-Z]{2,}$\<close>: neither class holds
    \<open>@\<close>, so the value has exactly one; the letters after the last dot of what
    follows it are the top-level domain.
\<close>

definition matchAlpha :: "string \<Rightarrow> bool" where
  "matchAlpha value = (value \<noteq> [] \<and> list_all isLetter value)"

definition matchAlphaDash :: "string \<Rightarrow> bool" where
  "matchAlphaDash value =
     (value \<noteq> [] \<and> list_all (\<lambda>c. isLetter c \<or> isDigit c \<or> c \<in> set ''-_'') value)"

definition matchAlphaNum :: "string \<Rightarrow> bool" where
  "matchAlphaNum value = (value \<noteq> [] \<and> list_all (\<lambda>c. isLetter c \<or> isDigit c) value)"

definition matchDigits :: "string \<Rightarrow> bool" where
  "matchDigits value = (value \<noteq> [] \<and> list_all isDigit value)"

definition matchEmail :: "string \<Rightarrow> bool" where
  "matchEmail value =
     (case Split value CHR ''@'' of
        [local, rest] \<Rightarrow>
          (let labels = Split rest CHR ''.'';
               tld = last labels;
               host = take (length rest - length tld - 1) rest
           in local \<noteq> [] \<and> list_all (\<lambda>c. isLetter c \<or> isDigit c \<or> c \<in> set ''._%+-'') local
              \<and> 2 \<le> length labels
              \<and> host \<noteq> [] \<and> list_all (\<lambda>c. isLetter c \<or> isDigit c \<or> c \<in> set ''.-'') host
              \<and> 2 \<le> length tld \<and> list_all isLetter tld)
      | _ \<Rightarrow> False)"

definition validateAccepted :: Validator where
  "validateAccepted name value inputs params =
     (let valid = [''1'', ''true'', ''yes'', ''on''] in Inr (stringInSlice value valid))"

definition validateActiveUrl :: "('f, 'r) stdlib \<Rightarrow> Validator" where
  "validateActiveUrl lib name value inputs params =
     (let lc = ToLower lib value in
      if \<not> (HasPrefix lc ''http://'' \<or> HasPrefix lc ''https://'') then Inr False
      else Inr (LookupHost lib (TrimPrefix (TrimPrefix lc ''http://'') ''https://'')))"

definition validateAlpha :: Validator where
  "validateAlpha name value inputs params = Inr (matchAlpha value)"

definition validateAlphaDash :: Validator where
  "validateAlphaDash name value inputs params = Inr (matchAlphaDash value)"

definition validateAlphaNumeric :: Validator where
  "validateAlphaNumeric name value inputs params = Inr (matchAlphaNum value)"

definition validateBoolean :: Validator where
  "validateBoolean name value inputs params = Inr (ParseBool value \<noteq> None)"

definition validateChars :: Validator where
  "validateChars name value inputs params =
     (if length params = 1 then
        andThen (index params 0) (\<lambda>p.
          Inr (case ParseInt p 16 of
                 None \<Rightarrow> False
               | Some charCount \<Rightarrow> int (length value) = charCount))
      else Inr False)"

text \<open>
  \<open>validateMinChars\<close> and \<open>validateMaxChars\<close> check \<open>len(params) == 1\<close> and then
  read \<open>params[1]\<close>. The operand of \<open>strconv.ParseInt\<close> is evaluated before the
  call, so the index is what decides.
\<close>

definition validateMinChars :: Validator where
  "validateMinChars name value inputs params =
     (if length params = 1 then
        andThen (index params 1) (\<lambda>p.
          Inr (case ParseInt p 16 of
                 None \<Rightarrow> False
               | Some minChars \<Rightarrow> minChars \<le> int (length value)))
      else Inr False)"

definition validateMaxChars :: Validator where
  "validateMaxChars name value inputs params =
     (if length params = 1 then
        andThen (index params 1) (\<lambda>p.
          Inr (case ParseInt p 16 of
                 None \<Rightarrow> False
               | Some maxChars \<Rightarrow> int (length value) \<le> maxChars))
      else Inr False)"

text \<open>\<open>a && b\<close> evaluates \<open>b\<close> only when \<open>a\<close> is true.\<close>

definition validateCharsBetween :: Validator where
  "validateCharsBetween name value inputs params =
     (if length params = 2 then
        andThen (index params 0) (\<lambda>a.
        andThen (index params 1) (\<lambda>b.
          let p1 = [a]; p2 = [b] in
          andThen (validateMinChars name value inputs p1) (\<lambda>ok.
            if ok then validateMaxChars name value inputs p2 else Inr False)))
      else Inr False)"

definition validateConfirmed :: Validator where
  "validateConfirmed name value inputs params =
     (case inputs (name @ ''_confirmation'') of
        None \<Rightarrow> Inr False
      | Some fieldValue \<Rightarrow> Inr (fieldValue = value))"

definition validateDate :: "('f, 'r) stdlib \<Rightarrow> Validator" where
  "validateDate lib name value inputs params =
     (if length params = 1 then
        andThen (index params 0) (\<lambda>layout. Inr (time_Parse lib layout value))
      else Inr False)"

definition validateSame :: Validator where
  "validateSame name value inputs params =
     (if length params = 1 then
        andThen (index params 0) (\<lambda>other.
          case inputs other of
            None \<Rightarrow> Inr False
          | Some fieldValue \<Rightarrow> Inr (fieldValue = value))
      else Inr False)"

definition validateDifferent :: Validator where
  "validateDifferent name value inputs params =
     andThen (validateSame name value inputs params) (\<lambda>same. Inr (\<not> same))"

definition validateDigits :: Validator where
  "validateDigits name value inputs params =
     (if length params = 1 \<and> matchDigits value then
        andThen (index params 0) (\<lambda>p.
          Inr (case ParseInt p 16 of
                 None \<Rightarrow> False
               | Some digitCount \<Rightarrow> int (length value) = digitCount))
      else Inr False)"

definition validateMinDigits :: Validator where
  "validateMinDigits name value inputs params =
     (if length params = 1 \<and> matchDigits value then
        andThen (index params 0) (\<lambda>p.
          Inr (case ParseInt p 16 of
                 None \<Rightarrow> False
               | Some minDigits \<Rightarrow> minDigits \<le> int (length value)))
      else Inr False)"

definition validateMaxDigits :: Validator where
  "validateMaxDigits name value inputs params =
     (if length params = 1 \<and> matchDigits value then
        andThen (index params 0) (\<lambda>p.
          Inr (case ParseInt p 16 of
                 None \<Rightarrow> False
               | Some maxDigits \<Rightarrow> int (length value) \<le> maxDigits))
      else Inr False)"

definition validateDigitsBetween :: Validator where
  "validateDigitsBetween name value inputs params =
     (if length params = 2 then
        andThen (index params 0) (\<lambda>a.
        andThen (index params 1) (\<lambda>b.
          let p1 = [a]; p2 = [b] in
          andThen (validateMinDigits name value inputs p1) (\<lambda>ok.
            if ok then validateMaxDigits name value inputs p2 else Inr False)))
      else Inr False)"

definition validateEmail :: Validator where
  "validateEmail name value inputs params = Inr (matchEmail value)"

definition validateIn :: Validator where
  "validateIn name value inputs params = Inr (stringInSlice value params)"

definition validateInteger :: Validator where
  "validateInteger name value inputs params = Inr (ParseInt value 64 \<noteq> None)"

definition validateIp :: "('f, 'r) stdlib \<Rightarrow> Validator" where
  "validateIp lib name value inputs params = Inr (ParseIP lib value)"

definition validateMinValue :: "('f, 'r) stdlib \<Rightarrow> Validator" where
  "validateMinValue lib name value inputs params =
     (if length params = 1 then
        andThen (index params 0) (\<lambda>p.
          Inr (case (ParseFloat lib p, ParseFloat lib value) of
                 (Some minValue, Some floatValue) \<Rightarrow> float_le lib minValue floatValue
               | _ \<Rightarrow> False))
      else Inr False)"

definition validateMaxValue :: "('f, 'r) stdlib \<Rightarrow> Validator" where
  "validateMaxValue lib name value inputs params =
     (if length params = 1 then
        andThen (index params 0) (\<lambda>p.
          Inr (case (ParseFloat lib p, ParseFloat lib value) of
                 (Some maxValue, Some floatValue) \<Rightarrow> float_le lib floatValue maxValue
               | _ \<Rightarrow> False))
      else Inr False)"

definition validateNotIn :: Validator where
  "validateNotIn name value inputs params = Inr (\<not> stringInSlice value params)"

definition validateNumeric :: "('f, 'r) stdlib \<Rightarrow> Validator" where
  "validateNumeric lib name value inputs params = Inr (ParseFloat lib value \<noteq> None)"

definition validateRegex :: "('f, 'r) stdlib \<Rightarrow> Validator" where
  "validateRegex lib name value inputs params =
     (if length params = 1 then
        andThen (index params 0) (\<lambda>p.
          Inr (case Compile lib p of
                 None \<Rightarrow> False
               | Some rx \<Rightarrow> MatchString lib rx value))
      else Inr False)"

definition validateRequired :: Validator where
  "validateRequired name value inputs params = Inr (value \<noteq> [])"

definition validateUrl :: "('f, 'r) stdlib \<Rightarrow> Validator" where
  "validateUrl lib name value inputs params =
     (let lc = ToLower lib value in
      if HasPrefix lc ''http://'' \<or> HasPrefix lc ''https://'' then Inr True else Inr False)"

definition validateValue :: "('f, 'r) stdlib \<Rightarrow> Validator" where
  "validateValue lib name value inputs params =
     (if length params = 1 then
        andThen (index params 0) (\<lambda>p.
          Inr (case (ParseFloat lib p, ParseFloat lib value) of
                 (Some expectedValue, Some actualValue) \<Rightarrow> float_eq lib expectedValue actualValue
               | _ \<Rightarrow> False))
      else Inr False)"

definition validateValueBetween :: "('f, 'r) stdlib \<Rightarrow> Validator" where
  "validateValueBetween lib name value inputs params =
     (if length params = 2 then
        andThen (index params 0) (\<lambda>a.
        andThen (index params 1) (\<lambda>b.
          let p1 = [a]; p2 = [b] in
          andThen (validateMinValue lib name value inputs p1) (\<lambda>ok.
            if ok then validateMaxValue lib name value inputs p2 else Inr False)))
      else Inr False)"

section \<open>The registry\<close>

text \<open>
  The package keeps two tables, \<open>validators\<close> and \<open>messages\<close>, both keyed by rule
  name; \<open>AddValidator\<close> writes to both. They are the state of the package.
\<close>

record registry =
  validators :: "string \<rightharpoonup> Validator"
  messages :: "string \<rightharpoonup> string"

definition builtinValidators :: "('f, 'r) stdlib \<Rightarrow> (string \<times> Validator) list" where
  "builtinValidators lib =
     [(''accepted'', validateAccepted),
      (''active_url'', validateActiveUrl lib),
      (''alpha'', validateAlpha),
      (''alpha_dash'', validateAlphaDash),
      (''alpha_num'', validateAlphaNumeric),
      (''boolean'', validateBoolean),
      (''chars'', validateChars),
      (''chars_between'', validateCharsBetween),
      (''confirmed'', validateConfirmed),
      (''date'', validateDate lib),
      (''different'', validateDifferent),
      (''digits'', validateDigits),
      (''digits_between'', validateDigitsBetween),
      (''email'', validateEmail),
      (''in'', validateIn),
      (''integer'', validateInteger),
      (''ip'', validateIp lib),
      (''max_chars'', validateMaxChars),
      (''max_digits'', validateMaxDigits),
      (''max_value'', validateMaxValue lib),
      (''min_chars'', validateMinChars),
      (''min_digits'', validateMinDigits),
      (''min_value'', validateMinValue lib),
      (''not_in'', validateNotIn),
      (''numeric'', validateNumeric lib),
      (''regex'', validateRegex lib),
      (''required'', validateRequired),
      (''same'', validateSame),
      (''url'', validateUrl lib),
      (''value'', validateValue lib),
      (''value_between'', validateValueBetween lib)]"

definition builtinMessages :: "(string \<times> string) list" where
  "builtinMessages =
     [(''accepted'', ''The %s must be accepted.''),
      (''active_url'', ''The %s is not a valid URL.''),
      (''alpha'', ''The %s may only contain letters.''),
      (''alpha_dash'', ''The %s may only contain letters, numbers, and dashes.''),
      (''alpha_num'', ''The %s may only contain letters and numbers.''),
      (''boolean'', ''The %s field must be true or false.''),
      (''chars'', ''The %s field must have %s characters.''),
      (''chars_between'', ''The %s field must have between %s characters.''),
      (''confirmed'', ''The %s confirmation does not match.''),
      (''date'', ''The %s is not a valid date.''),
      (''different'', ''The %s and %s must be different.''),
      (''digits'', ''The %s must have %s digits.''),
      (''digits_between'', ''The %s must have between %s and %s digits.''),
      (''email'', ''The %s must be a valid email address.''),
      (''in'', ''The selected %s is invalid.''),
      (''max_chars'', ''The %s must have fewer than %s characters.''),
      (''max_digits'', ''The %s must have fewer than %s digits.''),
      (''max_value'', ''The %s must be less than %s.''),
      (''min_chars'', ''The %s must have more than %s characters.''),
      (''min_digits'', ''The %s must have more than %s digits.''),
      (''min_value'', ''The %s must be greater than %s.''),
      (''integer'', ''The %s must be an integer.''),
      (''ip'', ''The %s must be a valid IP address.''),
      (''not_in'', ''The selected %s is invalid.''),
      (''numeric'', ''The %s must be a number.''),
      (''regex'', ''The %s format is invalid.''),
      (''required'', ''The %s field is required.''),
      (''same'', ''The %s and %s must match.''),
      (''url'', ''The %s format is invalid.''),
      (''value'', ''The %s must %s.''),
      (''value_between'', ''The %s must be between %s and %s.'')]"

text \<open>The state of the package when it is loaded.\<close>

definition initial :: "('f, 'r) stdlib \<Rightarrow> registry" where
  "initial lib =
     \<lparr>validators = map_of (builtinValidators lib), messages = map_of builtinMessages\<rparr>"

definition AddValidator :: "registry \<Rightarrow> string \<Rightarrow> Validator \<Rightarrow> string \<Rightarrow> registry" where
  "AddValidator st name fn message =
     st\<lparr>validators := (validators st)(name \<mapsto> fn), messages := (messages st)(name \<mapsto> message)\<rparr>"

section \<open>Parsing a rule and building a message\<close>

text \<open>
  \<open>splitRuleParams\<close> splits the token at every colon and reads the result only when
  it has exactly two parts. The slice \<open>params\<close> declared first is nil, of length 0.
\<close>

definition splitRuleParams :: "string \<Rightarrow> error + (string \<times> string list)" where
  "splitRuleParams ruleWithParams =
     (let split = Split ruleWithParams CHR '':'' in
      if length split = 2 then
        andThen (index split 0) (\<lambda>rule.
        andThen (index split 1) (\<lambda>rest.
          Inr (rule, Split rest CHR '','')))
      else Inr (ruleWithParams, []))"

text \<open>
  \<open>buildErrorMessage\<close> fills \<open>args\<close> with the field name and then the parameters
  (every index it writes is below \<open>1 + len(params)\<close>, the length it allocated).
\<close>

definition buildErrorMessage ::
  "('f, 'r) stdlib \<Rightarrow> registry \<Rightarrow> string \<Rightarrow> string \<Rightarrow> string list \<Rightarrow> string" where
  "buildErrorMessage lib st fieldName rule params =
     (case messages st rule of
        None \<Rightarrow> Sprintf lib ''The %s is invalid.'' [fieldName]
      | Some message \<Rightarrow>
          if Count message ''%s'' \<noteq> 1 + length params
          then Sprintf lib ''The %s is invalid.'' [fieldName]
          else Sprintf lib message (fieldName # params))"

section \<open>Validate\<close>

text \<open>
  The error messages of one call are a Go map from field name to message, written
  only by \<open>messages[fieldName] = ...\<close>: here an association list with one entry per
  key (\<^const>\<open>AList.update\<close> replaces the entry of a key it already holds), so that
  \<open>len(messages)\<close> is its length. The rules are a Go map as well; \<open>range\<close> visits
  its entries in an order the language leaves open, so \<open>Validate\<close> takes them as the
  list of entries in the order of the visit, one entry per field name.
\<close>

type_synonym errors = "(string \<times> string) list"

text \<open>The inner loop: \<open>for i := 0; i < len(fieldRules); i++\<close>.\<close>

fun rulesLoop ::
  "('f, 'r) stdlib \<Rightarrow> registry \<Rightarrow> inputs \<Rightarrow> string \<Rightarrow> string \<Rightarrow> string list \<Rightarrow> errors
     \<Rightarrow> error + errors" where
  "rulesLoop lib st inputs fieldName fieldValue [] msgs = Inr msgs"
| "rulesLoop lib st inputs fieldName fieldValue (r # rs) msgs =
     andThen (splitRuleParams r) (\<lambda>(rule, params).
       case validators st rule of
         None \<Rightarrow> rulesLoop lib st inputs fieldName fieldValue rs msgs
       | Some vFn \<Rightarrow>
           andThen (vFn fieldName fieldValue inputs params) (\<lambda>ok.
             if \<not> ok then
               rulesLoop lib st inputs fieldName fieldValue rs
                 (AList.update fieldName (buildErrorMessage lib st fieldName rule params) msgs)
             else rulesLoop lib st inputs fieldName fieldValue rs msgs))"

text \<open>The body of the outer loop, for one entry of the rules.\<close>

definition fieldStep ::
  "('f, 'r) stdlib \<Rightarrow> registry \<Rightarrow> inputs \<Rightarrow> string \<times> string \<Rightarrow> errors \<Rightarrow> error + errors" where
  "fieldStep lib st inputs entry msgs =
     (let fieldName = fst entry;
          fieldRulesRaw = snd entry;
          fieldValue = (case inputs fieldName of None \<Rightarrow> [] | Some v \<Rightarrow> v);
          fieldExists = (inputs fieldName \<noteq> None);
          fieldRules = Split fieldRulesRaw CHR ''|'';
          fieldIsRequired = stringInSlice ''required'' fieldRules;
          alwaysValidate = stringInSlice ''always'' fieldRules
      in if fieldIsRequired \<and> \<not> fieldExists then
           Inr (AList.update fieldName (buildErrorMessage lib st fieldName ''required'' []) msgs)
         else if fieldIsRequired \<or> alwaysValidate \<or> (\<not> fieldIsRequired \<and> fieldValue \<noteq> []) then
           rulesLoop lib st inputs fieldName fieldValue fieldRules msgs
         else Inr msgs)"

fun fieldsLoop ::
  "('f, 'r) stdlib \<Rightarrow> registry \<Rightarrow> inputs \<Rightarrow> (string \<times> string) list \<Rightarrow> errors
     \<Rightarrow> error + errors" where
  "fieldsLoop lib st inputs [] msgs = Inr msgs"
| "fieldsLoop lib st inputs (entry # rules) msgs =
     andThen (fieldStep lib st inputs entry msgs) (fieldsLoop lib st inputs rules)"

definition Validate ::
  "('f, 'r) stdlib \<Rightarrow> registry \<Rightarrow> inputs \<Rightarrow> (string \<times> string) list \<Rightarrow> error + (bool \<times> errors)" where
  "Validate lib st inputs rules =
     andThen (fieldsLoop lib st inputs rules []) (\<lambda>msgs. Inr (length msgs = 0, msgs))"


section \<open>Notions used to state the properties\<close>

text \<open>
  What one rule token does for a field: \<open>None\<close> when its rule name is not registered,
  otherwise what the registered validator returns (or the panic).
\<close>

definition verdict ::
  "registry \<Rightarrow> inputs \<Rightarrow> string \<Rightarrow> string \<Rightarrow> string \<Rightarrow> (error + bool) option" where
  "verdict st inputs fieldName fieldValue r =
     (case splitRuleParams r of
        Inl e \<Rightarrow> Some (Inl e)
      | Inr (rule, params) \<Rightarrow>
          (case validators st rule of
             None \<Rightarrow> None
           | Some vFn \<Rightarrow> Some (vFn fieldName fieldValue inputs params)))"

definition fails :: "registry \<Rightarrow> inputs \<Rightarrow> string \<Rightarrow> string \<Rightarrow> string \<Rightarrow> bool" where
  "fails st inputs fieldName fieldValue r =
     (verdict st inputs fieldName fieldValue r = Some (Inr False))"

definition panics :: "registry \<Rightarrow> inputs \<Rightarrow> string \<Rightarrow> string \<Rightarrow> string \<Rightarrow> bool" where
  "panics st inputs fieldName fieldValue r =
     (case verdict st inputs fieldName fieldValue r of Some (Inl e) \<Rightarrow> True | _ \<Rightarrow> False)"

text \<open>A token whose rule name has no entry in \<open>validators\<close>.\<close>

definition unknown :: "registry \<Rightarrow> string \<Rightarrow> bool" where
  "unknown st r =
     (case splitRuleParams r of
        Inl e \<Rightarrow> False
      | Inr (rule, params) \<Rightarrow> validators st rule = None)"

text \<open>The message \<open>Validate\<close> builds when the token \<open>r\<close> fails.\<close>

definition ruleMessage :: "('f, 'r) stdlib \<Rightarrow> registry \<Rightarrow> string \<Rightarrow> string \<Rightarrow> string" where
  "ruleMessage lib st fieldName r =
     (case splitRuleParams r of
        Inl e \<Rightarrow> []
      | Inr (rule, params) \<Rightarrow> buildErrorMessage lib st fieldName rule params)"

text \<open>
  The tokens that reach the index \<open>params[1]\<close> of \<open>validateMinChars\<close> and
  \<open>validateMaxChars\<close> with a slice of length 1, and the entries of the rules whose
  tokens \<open>Validate\<close> evaluates (the second branch of its loop body).
\<close>

definition hitsDefect :: "string \<Rightarrow> bool" where
  "hitsDefect r =
     (case splitRuleParams r of
        Inl e \<Rightarrow> False
      | Inr (rule, params) \<Rightarrow>
          (rule = ''min_chars'' \<or> rule = ''max_chars'') \<and> length params = 1
          \<or> rule = ''chars_between'' \<and> length params = 2)"

definition evaluated :: "inputs \<Rightarrow> string \<times> string \<Rightarrow> bool" where
  "evaluated inputs entry =
     (let fieldRules = Split (snd entry) CHR ''|'';
          fieldIsRequired = stringInSlice ''required'' fieldRules;
          alwaysValidate = stringInSlice ''always'' fieldRules
      in if fieldIsRequired then inputs (fst entry) \<noteq> None
         else alwaysValidate \<or> (inputs (fst entry) \<noteq> None \<and> inputs (fst entry) \<noteq> Some []))"

text \<open>
  Positional substitution, as the specification words it: the occurrences of \<open>%s\<close> in
  the template, from the left, are replaced by the arguments in their order. A template
  is \<open>plain\<close> when each of its percent signs begins such a placeholder.
\<close>

fun substitute :: "string \<Rightarrow> string list \<Rightarrow> string" where
  "substitute [] args = []"
| "substitute [c] args = [c]"
| "substitute (c # d # t) args =
     (if c = CHR ''%'' \<and> d = CHR ''s'' then
        (case args of
           [] \<Rightarrow> c # d # substitute t []
         | a # rest \<Rightarrow> a @ substitute t rest)
      else c # substitute (d # t) args)"

fun plain :: "string \<Rightarrow> bool" where
  "plain [] = True"
| "plain [c] = (c \<noteq> CHR ''%'')"
| "plain (c # d # t) = (if c = CHR ''%'' then d = CHR ''s'' \<and> plain t else plain (d # t))"

text \<open>
  A value for the library parameter, for the closed examples: every call to the
  parametrised part of the library fails and \<open>ToLower\<close> changes nothing. No example
  below runs a rule or a format that asks it.
\<close>

definition offline :: "(unit, unit) stdlib" where
  "offline =
     \<lparr>ParseFloat = (\<lambda>s. None), float_le = (\<lambda>a b. False), float_eq = (\<lambda>a b. False),
      time_Parse = (\<lambda>layout value. False), ParseIP = (\<lambda>s. False), LookupHost = (\<lambda>h. False),
      Compile = (\<lambda>p. None), MatchString = (\<lambda>rx s. False), ToLower = (\<lambda>s. s),
      Sprintf_other = (\<lambda>fmt args. [])\<rparr>"

section \<open>Auxiliary facts\<close>

lemma andThen_Inr [simp]: "andThen (Inr x) f = f x"
  by (simp add: andThen_def)

lemma andThen_Inl [simp]: "andThen (Inl e) f = Inl e"
  by (simp add: andThen_def)

lemma andThen_eq_Inr: "andThen r f = Inr y \<longleftrightarrow> (\<exists>x. r = Inr x \<and> f x = Inr y)"
  by (cases r) auto

lemma error_unique: "(e :: error) = IndexOutOfRange"
  by (cases e) simp

lemma stringInSlice_set: "stringInSlice needle haystack \<longleftrightarrow> needle \<in> set haystack"
  by (induction haystack) auto

subsection \<open>Splitting\<close>

lemma Split_not_Nil: "Split s sep \<noteq> []"
  by (induction s) (auto split: list.splits)

lemma length_Split: "length (Split s sep) = Suc (count_list s sep)"
  by (induction s) (auto split: list.splits simp: Split_not_Nil)

lemma Split_no_sep: "sep \<notin> set s \<Longrightarrow> Split s sep = [s]"
  by (induction s) auto

lemma Split_first: "sep \<notin> set a \<Longrightarrow> Split (a @ sep # b) sep = a # Split b sep"
  by (induction a) auto

lemma count_list_0_iff: "count_list s c = 0 \<longleftrightarrow> c \<notin> set s"
  by (induction s) auto

lemma one_sep_decompose:
  "count_list t sep = Suc 0 \<Longrightarrow>
   t = takeWhile (\<lambda>c. c \<noteq> sep) t @ sep # tl (dropWhile (\<lambda>c. c \<noteq> sep) t)
   \<and> sep \<notin> set (tl (dropWhile (\<lambda>c. c \<noteq> sep) t))"
  by (induction t) (auto simp: count_list_0_iff split: if_splits)

lemma splitRuleParams_one:
  assumes "sep = CHR '':''" "sep \<notin> set a" "sep \<notin> set b"
  shows "splitRuleParams (a @ sep # b) = Inr (a, Split b CHR '','')"
  using assms by (simp add: splitRuleParams_def Split_first Split_no_sep index_def)

lemma splitRuleParams_total: "\<exists>rule params. splitRuleParams r = Inr (rule, params)"
  by (auto simp: splitRuleParams_def index_def Let_def)

subsection \<open>What the loops can do to the messages\<close>

lemma rulesLoop_shape:
  "rulesLoop lib st inputs f v ts msgs = Inr msgs' \<Longrightarrow>
   msgs' = msgs \<or> (\<exists>m. msgs' = AList.update f m msgs)"
proof (induction ts arbitrary: msgs)
  case Nil
  then show ?case by simp
next
  case (Cons t ts)
  from Cons.prems obtain rule params where sp: "splitRuleParams t = Inr (rule, params)"
    by (auto simp: andThen_eq_Inr)
  show ?case
  proof (cases "validators st rule")
    case None
    with Cons sp show ?thesis by simp
  next
    case (Some vFn)
    with Cons.prems sp obtain ok where ok: "vFn f v inputs params = Inr ok"
      by (auto simp: andThen_eq_Inr)
    show ?thesis
    proof (cases ok)
      case True
      with Cons sp Some ok show ?thesis by simp
    next
      case False
      with Cons.prems sp Some ok
      have "rulesLoop lib st inputs f v ts
              (AList.update f (buildErrorMessage lib st f rule params) msgs) = Inr msgs'"
        by simp
      from Cons.IH [OF this] show ?thesis by auto
    qed
  qed
qed

lemma fieldStep_shape:
  "fieldStep lib st inputs (f, r) msgs = Inr msgs' \<Longrightarrow>
   msgs' = msgs \<or> (\<exists>m. msgs' = AList.update f m msgs)"
  by (auto simp: fieldStep_def Let_def split: if_splits dest: rulesLoop_shape)

lemma fieldStep_frame:
  assumes "fieldStep lib st inputs (f, r) msgs = Inr msgs'" and "g \<noteq> f"
  shows "map_of msgs' g = map_of msgs g"
  using fieldStep_shape [OF assms(1)] assms(2) by (auto simp: update_conv')

lemma fieldStep_keys:
  assumes "fieldStep lib st inputs (f, r) msgs = Inr msgs'"
  shows "fst ` set msgs' \<subseteq> insert f (fst ` set msgs)"
proof -
  from fieldStep_shape [OF assms] show ?thesis
  proof
    assume "msgs' = msgs"
    then show ?thesis by auto
  next
    assume "\<exists>m. msgs' = AList.update f m msgs"
    then obtain m where "msgs' = AList.update f m msgs" ..
    then show ?thesis by (simp add: dom_update)
  qed
qed

lemma fieldStep_distinct:
  assumes "fieldStep lib st inputs (f, r) msgs = Inr msgs'" and "distinct (map fst msgs)"
  shows "distinct (map fst msgs')"
  using fieldStep_shape [OF assms(1)] assms(2) by (auto simp: distinct_update)

lemma fieldsLoop_keys:
  "fieldsLoop lib st inputs rules msgs = Inr msgs' \<Longrightarrow>
   fst ` set msgs' \<subseteq> fst ` set msgs \<union> fst ` set rules"
proof (induction rules arbitrary: msgs)
  case Nil
  then show ?case by simp
next
  case (Cons entry rules)
  obtain f r where e: "entry = (f, r)" by (cases entry)
  from Cons.prems obtain m where m: "fieldStep lib st inputs (f, r) msgs = Inr m"
    and rest: "fieldsLoop lib st inputs rules m = Inr msgs'"
    by (auto simp: e andThen_eq_Inr)
  from Cons.IH [OF rest] fieldStep_keys [OF m] show ?case by (auto simp: e)
qed

lemma fieldsLoop_distinct:
  "fieldsLoop lib st inputs rules msgs = Inr msgs' \<Longrightarrow> distinct (map fst msgs) \<Longrightarrow>
   distinct (map fst msgs')"
proof (induction rules arbitrary: msgs)
  case Nil
  then show ?case by simp
next
  case (Cons entry rules)
  obtain f r where e: "entry = (f, r)" by (cases entry)
  from Cons.prems obtain m where m: "fieldStep lib st inputs (f, r) msgs = Inr m"
    and rest: "fieldsLoop lib st inputs rules m = Inr msgs'"
    by (auto simp: e andThen_eq_Inr)
  from Cons.IH [OF rest fieldStep_distinct [OF m Cons.prems(2)]] show ?case .
qed

lemma fieldsLoop_frame:
  "fieldsLoop lib st inputs rules msgs = Inr msgs' \<Longrightarrow> g \<notin> fst ` set rules \<Longrightarrow>
   map_of msgs' g = map_of msgs g"
proof (induction rules arbitrary: msgs)
  case Nil
  then show ?case by simp
next
  case (Cons entry rules)
  obtain f r where e: "entry = (f, r)" by (cases entry)
  from Cons.prems obtain m where m: "fieldStep lib st inputs (f, r) msgs = Inr m"
    and rest: "fieldsLoop lib st inputs rules m = Inr msgs'"
    by (auto simp: e andThen_eq_Inr)
  from Cons.prems(2) have "g \<noteq> f" "g \<notin> fst ` set rules" by (auto simp: e)
  with Cons.IH [OF rest] fieldStep_frame [OF m] show ?case by simp
qed

text \<open>
  With one entry per field name, what the messages hold for a field when the outer loop
  ends is what the one visit of that field left there.
\<close>

lemma fieldsLoop_field:
  "fieldsLoop lib st inputs rules msgs = Inr msgs' \<Longrightarrow> distinct (map fst rules) \<Longrightarrow>
   (f, r) \<in> set rules \<Longrightarrow>
   \<exists>m1 m2. map_of m1 f = map_of msgs f \<and> fieldStep lib st inputs (f, r) m1 = Inr m2
     \<and> map_of msgs' f = map_of m2 f"
proof (induction rules arbitrary: msgs)
  case Nil
  then show ?case by simp
next
  case (Cons entry rules)
  obtain g r' where e: "entry = (g, r')" by (cases entry)
  from Cons.prems(1) obtain m where m: "fieldStep lib st inputs (g, r') msgs = Inr m"
    and rest: "fieldsLoop lib st inputs rules m = Inr msgs'"
    by (auto simp: e andThen_eq_Inr)
  from Cons.prems(2) have d: "distinct (map fst rules)" and g: "g \<notin> fst ` set rules"
    by (auto simp: e)
  show ?case
  proof (cases "f = g")
    case True
    with g have out: "f \<notin> fst ` set rules" by simp
    then have "(f, r) \<notin> set rules" by force
    with Cons.prems(3) True have "r = r'" by (simp add: e)
    with fieldsLoop_frame [OF rest out] m True show ?thesis by blast
  next
    case False
    with Cons.prems(3) have mem: "(f, r) \<in> set rules" by (simp add: e)
    from fieldStep_frame [OF m False] have same: "map_of m f = map_of msgs f" .
    from Cons.IH [OF rest d mem] same show ?thesis by auto
  qed
qed

lemma Validate_cases:
  "Validate lib st inputs rules = Inl IndexOutOfRange \<or>
   (\<exists>m. fieldsLoop lib st inputs rules [] = Inr m
      \<and> Validate lib st inputs rules = Inr (m = [], m))"
  by (cases "fieldsLoop lib st inputs rules []") (auto simp: Validate_def error_unique)



subsection \<open>The branches of the loop body\<close>

lemma fieldStep_required_absent:
  assumes "stringInSlice ''required'' (Split r CHR ''|'')" and "inputs f = None"
  shows "fieldStep lib st inputs (f, r) msgs =
           Inr (AList.update f (buildErrorMessage lib st f ''required'' []) msgs)"
  using assms by (simp add: fieldStep_def)

lemma buildErrorMessage_validators:
  "buildErrorMessage lib (st\<lparr>validators := vs\<rparr>) f rule params =
   buildErrorMessage lib st f rule params"
  by (simp add: buildErrorMessage_def)

lemma fieldStep_skip:
  assumes "\<not> stringInSlice ''required'' (Split r CHR ''|'')"
    and "\<not> stringInSlice ''always'' (Split r CHR ''|'')"
    and "inputs f = None \<or> inputs f = Some []"
  shows "fieldStep lib st inputs (f, r) msgs = Inr msgs"
  using assms by (auto simp: fieldStep_def)

lemma fieldStep_evaluated:
  assumes "evaluated inputs (f, r)"
  shows "fieldStep lib st inputs (f, r) msgs =
         rulesLoop lib st inputs f (case inputs f of None \<Rightarrow> [] | Some x \<Rightarrow> x)
           (Split r CHR ''|'') msgs"
  using assms by (auto simp: fieldStep_def evaluated_def Let_def split: if_splits)

subsection \<open>The inner loop\<close>

lemma rulesLoop_unknown:
  assumes "unknown st t"
  shows "rulesLoop lib st inputs f v (t # ts) msgs = rulesLoop lib st inputs f v ts msgs"
  using assms by (auto simp: unknown_def split: sum.splits)

lemma rulesLoop_append:
  "rulesLoop lib st inputs f v (rs1 @ rs2) msgs =
   andThen (rulesLoop lib st inputs f v rs1 msgs) (rulesLoop lib st inputs f v rs2)"
proof (induction rs1 arbitrary: msgs)
  case Nil
  show ?case by simp
next
  case (Cons r rs1)
  show ?case
  proof (cases "splitRuleParams r")
    case (Inl e)
    then show ?thesis by simp
  next
    case (Inr p)
    obtain rule params where p: "p = (rule, params)" by (cases p)
    show ?thesis
    proof (cases "validators st rule")
      case None
      with Inr p Cons.IH show ?thesis by simp
    next
      case (Some vFn)
      show ?thesis
      proof (cases "vFn f v inputs params")
        case (Inl e)
        with \<open>splitRuleParams r = Inr p\<close> p Some show ?thesis by simp
      next
        case (Inr ok)
        with \<open>splitRuleParams r = Inr p\<close> p Some Cons.IH show ?thesis by simp
      qed
    qed
  qed
qed

lemma rulesLoop_all_unknown:
  "list_all (unknown st) ts \<Longrightarrow> rulesLoop lib st inputs f v ts msgs = Inr msgs"
  by (induction ts) (simp_all add: rulesLoop_unknown del: rulesLoop.simps(2))

lemma fieldStep_all_unknown:
  assumes "list_all (unknown st) (Split r CHR ''|'')" and "validators st ''required'' \<noteq> None"
  shows "fieldStep lib st inputs (f, r) msgs = Inr msgs"
proof -
  have "\<not> unknown st ''required''"
    using assms(2) by (simp add: unknown_def splitRuleParams_def)
  with assms(1) have "\<not> stringInSlice ''required'' (Split r CHR ''|'')"
    by (auto simp: stringInSlice_set list_all_iff)
  with assms(1) show ?thesis
    by (simp add: fieldStep_def Let_def rulesLoop_all_unknown)
qed

lemma rulesLoop_panics:
  "\<not> list_all (\<lambda>r. \<not> panics st inputs f v r) rs \<Longrightarrow>
   rulesLoop lib st inputs f v rs msgs = Inl IndexOutOfRange"
proof (induction rs arbitrary: msgs)
  case Nil
  then show ?case by simp
next
  case (Cons r rs)
  show ?case
  proof (cases "rulesLoop lib st inputs f v (r # rs) msgs")
    case (Inl e)
    then show ?thesis by (simp only: error_unique [of e])
  next
    case (Inr m)
    then obtain rule params where sp: "splitRuleParams r = Inr (rule, params)"
      by (auto simp: andThen_eq_Inr)
    show ?thesis
    proof (cases "validators st rule")
      case None
      with sp have "\<not> panics st inputs f v r" by (simp add: panics_def verdict_def)
      with Cons.prems have "\<not> list_all (\<lambda>r. \<not> panics st inputs f v r) rs" by simp
      from Cons.IH [OF this] sp None show ?thesis by simp
    next
      case (Some vFn)
      with Inr sp obtain ok where ok: "vFn f v inputs params = Inr ok"
        by (auto simp: andThen_eq_Inr)
      with sp Some have "\<not> panics st inputs f v r" by (simp add: panics_def verdict_def)
      with Cons.prems have "\<not> list_all (\<lambda>r. \<not> panics st inputs f v r) rs" by simp
      from Cons.IH [OF this] sp Some ok show ?thesis by simp
    qed
  qed
qed

lemma rulesLoop_last_failing:
  "list_all (\<lambda>r. \<not> panics st inputs f v r) rs \<Longrightarrow>
   rulesLoop lib st inputs f v rs msgs =
     Inr (if filter (fails st inputs f v) rs = [] then msgs
          else AList.update f (ruleMessage lib st f (last (filter (fails st inputs f v) rs))) msgs)"
proof (induction rs arbitrary: msgs)
  case Nil
  show ?case by simp
next
  case (Cons r rs)
  from Cons.prems have r: "\<not> panics st inputs f v r"
    and rs: "list_all (\<lambda>r. \<not> panics st inputs f v r) rs"
    by simp_all
  obtain rule params where sp: "splitRuleParams r = Inr (rule, params)"
    using splitRuleParams_total by blast
  show ?case
  proof (cases "validators st rule")
    case None
    with sp have "\<not> fails st inputs f v r" by (simp add: fails_def verdict_def)
    with sp None Cons.IH [OF rs] show ?thesis by simp
  next
    case (Some vFn)
    with r sp obtain ok where ok: "vFn f v inputs params = Inr ok"
      by (cases "vFn f v inputs params") (auto simp: panics_def verdict_def)
    show ?thesis
    proof (cases ok)
      case True
      with sp Some ok have "\<not> fails st inputs f v r" by (simp add: fails_def verdict_def)
      with sp Some ok True Cons.IH [OF rs] show ?thesis by simp
    next
      case False
      with sp Some ok have fr: "fails st inputs f v r" by (simp add: fails_def verdict_def)
      from sp have msg: "ruleMessage lib st f r = buildErrorMessage lib st f rule params"
        by (simp add: ruleMessage_def)
      from sp Some ok False fr msg Cons.IH [OF rs] show ?thesis by simp
    qed
  qed
qed

subsection \<open>Formatting\<close>

lemma Count_placeholder:
  "Count (c # d # t) ''%s'' =
     (if c = CHR ''%'' \<and> d = CHR ''s'' then Suc (Count t ''%s'') else Count (d # t) ''%s'')"
  by simp

lemma doPrintf_plain:
  "plain t \<Longrightarrow> Count t ''%s'' = length args \<Longrightarrow> doPrintf t args = Some (substitute t args)"
proof (induction t arbitrary: args rule: plain.induct)
  case 1
  then show ?case by (simp add: extraArgs_def)
next
  case (2 c)
  then show ?case by (simp add: extraArgs_def)
next
  case (3 c d t)
  show ?case
  proof (cases "c = CHR ''%''")
    case True
    with "3.prems" have d: "d = CHR ''s''" and pl: "plain t" by simp_all
    with True "3.prems"(2) obtain a rest where args: "args = a # rest"
      and cnt: "Count t ''%s'' = length rest"
      by (cases args) simp_all
    from "3.IH"(1) [OF True pl cnt] True d args show ?thesis by simp
  next
    case False
    with "3.prems" have pl: "plain (d # t)" and cnt: "Count (d # t) ''%s'' = length args"
      by simp_all
    from "3.IH"(2) [OF False pl cnt] False show ?thesis by simp
  qed
qed

lemma Sprintf_generic: "Sprintf lib ''The %s is invalid.'' [f] = ''The '' @ f @ '' is invalid.''"
  by (simp add: Sprintf_def extraArgs_def)

subsection \<open>Which built-in validators can panic\<close>

lemma total_simple:
  "validateAccepted f v inputs params \<noteq> Inl e"
  "validateActiveUrl lib f v inputs params \<noteq> Inl e"
  "validateAlpha f v inputs params \<noteq> Inl e"
  "validateAlphaDash f v inputs params \<noteq> Inl e"
  "validateAlphaNumeric f v inputs params \<noteq> Inl e"
  "validateBoolean f v inputs params \<noteq> Inl e"
  "validateConfirmed f v inputs params \<noteq> Inl e"
  "validateEmail f v inputs params \<noteq> Inl e"
  "validateIn f v inputs params \<noteq> Inl e"
  "validateInteger f v inputs params \<noteq> Inl e"
  "validateIp lib f v inputs params \<noteq> Inl e"
  "validateNotIn f v inputs params \<noteq> Inl e"
  "validateNumeric lib f v inputs params \<noteq> Inl e"
  "validateRequired f v inputs params \<noteq> Inl e"
  "validateUrl lib f v inputs params \<noteq> Inl e"
  by (simp_all add: validateAccepted_def validateActiveUrl_def validateAlpha_def
      validateAlphaDash_def validateAlphaNumeric_def validateBoolean_def validateConfirmed_def
      validateEmail_def validateIn_def validateInteger_def validateIp_def validateNotIn_def
      validateNumeric_def validateRequired_def validateUrl_def Let_def split: option.splits)

lemma total_one_param:
  "validateChars f v inputs params \<noteq> Inl e"
  "validateDate lib f v inputs params \<noteq> Inl e"
  "validateSame f v inputs params \<noteq> Inl e"
  "validateDigits f v inputs params \<noteq> Inl e"
  "validateMinDigits f v inputs params \<noteq> Inl e"
  "validateMaxDigits f v inputs params \<noteq> Inl e"
  "validateMinValue lib f v inputs params \<noteq> Inl e"
  "validateMaxValue lib f v inputs params \<noteq> Inl e"
  "validateRegex lib f v inputs params \<noteq> Inl e"
  "validateValue lib f v inputs params \<noteq> Inl e"
  by (simp_all add: validateChars_def validateDate_def validateSame_def validateDigits_def
      validateMinDigits_def validateMaxDigits_def validateMinValue_def validateMaxValue_def
      validateRegex_def validateValue_def index_def split: option.splits)

lemma andThen_total:
  assumes "r \<noteq> Inl e" and "\<And>x. g x \<noteq> Inl e"
  shows "andThen r g \<noteq> Inl e"
  using assms by (cases r) (simp_all add: error_unique [of e] error_unique)

lemma total_composed:
  "validateDifferent f v inputs params \<noteq> Inl e"
  "validateDigitsBetween f v inputs params \<noteq> Inl e"
  "validateValueBetween lib f v inputs params \<noteq> Inl e"
  by (simp_all add: validateDifferent_def validateDigitsBetween_def validateValueBetween_def
      index_def andThen_total total_one_param)

lemma defective:
  "validateMinChars f v inputs params = (if length params = 1 then Inl IndexOutOfRange else Inr False)"
  "validateMaxChars f v inputs params = (if length params = 1 then Inl IndexOutOfRange else Inr False)"
  "validateCharsBetween f v inputs params =
     (if length params = 2 then Inl IndexOutOfRange else Inr False)"
  by (simp_all add: validateMinChars_def validateMaxChars_def validateCharsBetween_def index_def)

lemmas totals = total_simple total_one_param total_composed

lemma builtin_panics:
  assumes "map_of (builtinValidators lib) rule = Some vFn"
  shows "vFn f v inputs params = Inl IndexOutOfRange \<longleftrightarrow>
     (rule = ''min_chars'' \<or> rule = ''max_chars'') \<and> length params = 1
     \<or> rule = ''chars_between'' \<and> length params = 2"
  using assms
  by (auto simp: builtinValidators_def defective totals split: if_splits)

lemma panics_initial: "panics (initial lib) inputs f v t \<longleftrightarrow> hitsDefect t"
proof -
  obtain rule params where sp: "splitRuleParams t = Inr (rule, params)"
    using splitRuleParams_total by blast
  show ?thesis
  proof (cases "map_of (builtinValidators lib) rule")
    case None
    then have "rule \<noteq> ''min_chars''" "rule \<noteq> ''max_chars''" "rule \<noteq> ''chars_between''"
      by (auto simp: builtinValidators_def)
    with None sp show ?thesis
      by (simp add: panics_def verdict_def hitsDefect_def initial_def)
  next
    case (Some vFn)
    from builtin_panics [OF Some, of f v inputs params] Some sp show ?thesis
      by (cases "vFn f v inputs params")
        (simp_all add: panics_def verdict_def hitsDefect_def initial_def error_unique)
  qed
qed

lemma panics_initial_fun: "panics (initial lib) inputs f v = hitsDefect"
  by (rule ext) (rule panics_initial)

lemma rulesLoop_Inl_iff:
  "rulesLoop lib st inputs f v rs msgs = Inl IndexOutOfRange \<longleftrightarrow>
   list_ex (panics st inputs f v) rs"
proof (cases "list_all (\<lambda>r. \<not> panics st inputs f v r) rs")
  case True
  from rulesLoop_last_failing [OF True, of lib msgs] True show ?thesis
    by (simp add: list_all_iff list_ex_iff)
next
  case False
  from rulesLoop_panics [OF False] False show ?thesis
    by (simp add: list_all_iff list_ex_iff)
qed

lemma fieldStep_Inl_iff:
  "fieldStep lib (initial lib) inputs entry msgs = Inl IndexOutOfRange \<longleftrightarrow>
   evaluated inputs entry \<and> list_ex hitsDefect (Split (snd entry) CHR ''|'')"
  by (auto simp: fieldStep_def evaluated_def Let_def rulesLoop_Inl_iff panics_initial_fun)

lemma fieldsLoop_Inl_iff:
  "fieldsLoop lib (initial lib) inputs rules msgs = Inl IndexOutOfRange \<longleftrightarrow>
   list_ex (\<lambda>entry. evaluated inputs entry \<and> list_ex hitsDefect (Split (snd entry) CHR ''|''))
     rules"
proof (induction rules arbitrary: msgs)
  case Nil
  show ?case by simp
next
  case (Cons entry rules)
  show ?case
  proof (cases "fieldStep lib (initial lib) inputs entry msgs")
    case (Inl e)
    then have "fieldStep lib (initial lib) inputs entry msgs = Inl IndexOutOfRange"
      by (simp add: error_unique)
    with fieldStep_Inl_iff [of lib inputs entry msgs] show ?thesis by simp
  next
    case (Inr m)
    then have "fieldStep lib (initial lib) inputs entry msgs \<noteq> Inl IndexOutOfRange" by simp
    with fieldStep_Inl_iff [of lib inputs entry msgs] Inr Cons.IH [of m] show ?thesis by auto
  qed
qed

subsection \<open>Evaluating closed examples\<close>

lemma initial_validators:
  "validators (initial lib) ''required'' = Some validateRequired"
  "validators (initial lib) ''alpha'' = Some validateAlpha"
  "validators (initial lib) ''accepted'' = Some validateAccepted"
  "validators (initial lib) ''min_chars'' = Some validateMinChars"
  "validators (initial lib) ''always'' = None"
  "validators (initial lib) ''frobnicate'' = None"
  by (simp_all add: initial_def builtinValidators_def)

lemma initial_messages:
  "messages (initial lib) ''required'' = Some ''The %s field is required.''"
  "messages (initial lib) ''alpha'' = Some ''The %s may only contain letters.''"
  "messages (initial lib) ''accepted'' = Some ''The %s must be accepted.''"
  "messages (initial lib) ''same'' = Some ''The %s and %s must match.''"
  "messages (initial lib) ''chars_between'' = Some ''The %s field must have between %s characters.''"
  "messages (initial lib) ''frobnicate'' = None"
  by (simp_all add: initial_def builtinMessages_def)

lemmas run_defs = fieldStep_def splitRuleParams_def index_def buildErrorMessage_def
  Sprintf_def extraArgs_def initial_validators initial_messages validateRequired_def
  validateAlpha_def matchAlpha_def isLetter_def lower_def upper_def validateAccepted_def
  validateMinChars_def

section \<open>The rule parser\<close>

text \<open>
  C8. For every rule token the parser raises no error. A token with exactly one colon
  yields the text before the colon as the rule name and the text after it, split at the
  commas, as the parameters. A token with two or more colons, like a token with none,
  comes back whole as the rule name, with no parameters.
\<close>

theorem splitRuleParams_parse:
  "(count_list t CHR '':'' = 1 \<longrightarrow>
      splitRuleParams t =
        Inr (takeWhile (\<lambda>c. c \<noteq> CHR '':'') t,
             Split (tl (dropWhile (\<lambda>c. c \<noteq> CHR '':'') t)) CHR '',''))
   \<and> (2 \<le> count_list t CHR '':'' \<longrightarrow> splitRuleParams t = Inr (t, []))
   \<and> (count_list t CHR '':'' = 0 \<longrightarrow> splitRuleParams t = Inr (t, []))
   \<and> (\<exists>rule params. splitRuleParams t = Inr (rule, params))"
proof (intro conjI impI)
  let ?a = "takeWhile (\<lambda>c. c \<noteq> CHR '':'') t"
  let ?b = "tl (dropWhile (\<lambda>c. c \<noteq> CHR '':'') t)"
  assume "count_list t CHR '':'' = 1"
  then have t: "t = ?a @ CHR '':'' # ?b" and b: "CHR '':'' \<notin> set ?b"
    using one_sep_decompose [of t "CHR '':''"] by simp_all
  have a: "CHR '':'' \<notin> set ?a"
    by (auto dest: set_takeWhileD)
  from splitRuleParams_one [OF refl a b] t
  show "splitRuleParams t = Inr (?a, Split ?b CHR '','')"
    by simp
next
  assume "2 \<le> count_list t CHR '':''"
  then show "splitRuleParams t = Inr (t, [])"
    by (simp add: splitRuleParams_def length_Split)
next
  assume "count_list t CHR '':'' = 0"
  then show "splitRuleParams t = Inr (t, [])"
    by (simp add: splitRuleParams_def length_Split)
next
  show "\<exists>rule params. splitRuleParams t = Inr (rule, params)"
    by (rule splitRuleParams_total)
qed

theorem splitRuleParams_parse_witness:
  "splitRuleParams ''chars_between:3,6'' = Inr (''chars_between'', [''3'', ''6''])
   \<and> splitRuleParams ''date:15:04'' = Inr (''date:15:04'', [])
   \<and> splitRuleParams ''required'' = Inr (''required'', [])"
  using splitRuleParams_parse [of "''chars_between:3,6''"]
    splitRuleParams_parse [of "''date:15:04''"]
    splitRuleParams_parse [of "''required''"]
  by simp

section \<open>The rule same\<close>

text \<open>
  C9. The token \<open>same:password\<close> parses to the rule \<open>same\<close> with the one parameter
  \<open>password\<close>, the registry holds \<open>validateSame\<close> under that name, and for every
  inputs mapping the rule passes exactly when the inputs hold a value for
  \<open>password\<close> that is the same string as the field's value, byte for byte; with no
  \<open>password\<close> in the inputs it fails.
\<close>

theorem same_password:
  "splitRuleParams ''same:password'' = Inr (''same'', [''password''])
   \<and> validators (initial lib) ''same'' = Some validateSame
   \<and> validateSame name value inputs [''password''] = Inr (inputs ''password'' = Some value)"
  by (auto simp: splitRuleParams_def index_def initial_def builtinValidators_def
      validateSame_def split: option.splits)

theorem same_password_witness:
  "validateSame ''password_confirmation'' ''s3cret''
     [''password'' \<mapsto> ''s3cret'', ''password_confirmation'' \<mapsto> ''s3cret''] [''password'']
     = Inr True
   \<and> validateSame ''password_confirmation'' ''S3cret''
     [''password'' \<mapsto> ''s3cret'', ''password_confirmation'' \<mapsto> ''S3cret''] [''password'']
     = Inr False
   \<and> validateSame ''password_confirmation'' ''s3cret''
     [''password_confirmation'' \<mapsto> ''s3cret''] [''password'']
     = Inr False"
  using same_password [of offline "''password_confirmation''" "''s3cret''"
      "[''password'' \<mapsto> ''s3cret'', ''password_confirmation'' \<mapsto> ''s3cret'']"]
    same_password [of offline "''password_confirmation''" "''S3cret''"
      "[''password'' \<mapsto> ''s3cret'', ''password_confirmation'' \<mapsto> ''S3cret'']"]
    same_password [of offline "''password_confirmation''" "''s3cret''"
      "[''password_confirmation'' \<mapsto> ''s3cret'']"]
  by simp

section \<open>The index read by min_chars and max_chars\<close>

text \<open>
  C1. The claim is that \<open>Validate\<close> returns for all inputs and rules. The code does
  not: \<open>validateMinChars\<close> and \<open>validateMaxChars\<close> read \<open>params[1]\<close> of a slice
  they have just found to be of length 1, so with any single parameter they panic, and
  so does \<open>Validate\<close> on the rule string \<open>min_chars:3\<close> for a submitted field.
\<close>

theorem min_chars_panics:
  "validateMinChars name value inputs [p] = Inl IndexOutOfRange
   \<and> validateMaxChars name value inputs [p] = Inl IndexOutOfRange
   \<and> Validate lib (initial lib) [''name'' \<mapsto> ''bob''] [(''name'', ''min_chars:3'')]
       = Inl IndexOutOfRange"
  by (simp add: validateMinChars_def validateMaxChars_def index_def Validate_def fieldStep_def
      splitRuleParams_def initial_def builtinValidators_def)

text \<open>
  C2. The claim is that \<open>chars_between:3,6\<close> passes exactly for the lengths 3 to 6.
  The code hands each bound to \<open>validateMinChars\<close> and \<open>validateMaxChars\<close> as a
  slice of length 1, so the first of them panics whatever the value is.
\<close>

theorem chars_between_panics:
  "validateCharsBetween name value inputs [''3'', ''6''] = Inl IndexOutOfRange
   \<and> Validate lib (initial lib) [''code'' \<mapsto> ''abcd''] [(''code'', ''chars_between:3,6'')]
       = Inl IndexOutOfRange"
  by (simp add: validateCharsBetween_def validateMinChars_def index_def Validate_def
      fieldStep_def splitRuleParams_def initial_def builtinValidators_def)


text \<open>
  The two validators are the only source of a panic. With the built-in registry,
  \<open>Validate\<close> panics exactly when the rules hold an entry whose tokens it evaluates
  and one of them is \<open>min_chars\<close> or \<open>max_chars\<close> with a single parameter or
  \<open>chars_between\<close> with two; for all other inputs and rules it returns.
\<close>

theorem Validate_panics_iff:
  "(Validate lib (initial lib) inputs rules = Inl IndexOutOfRange \<longleftrightarrow>
     list_ex (\<lambda>entry. evaluated inputs entry \<and> list_ex hitsDefect (Split (snd entry) CHR ''|''))
       rules)
   \<and> (Validate lib (initial lib) inputs rules \<noteq> Inl IndexOutOfRange \<longleftrightarrow>
     (\<exists>ok m. Validate lib (initial lib) inputs rules = Inr (ok, m)))"
proof
  show "Validate lib (initial lib) inputs rules = Inl IndexOutOfRange \<longleftrightarrow>
     list_ex (\<lambda>entry. evaluated inputs entry \<and> list_ex hitsDefect (Split (snd entry) CHR ''|''))
       rules"
    using fieldsLoop_Inl_iff [of lib inputs rules "[]"]
    by (cases "fieldsLoop lib (initial lib) inputs rules []")
      (simp_all add: Validate_def error_unique)
next
  show "Validate lib (initial lib) inputs rules \<noteq> Inl IndexOutOfRange \<longleftrightarrow>
     (\<exists>ok m. Validate lib (initial lib) inputs rules = Inr (ok, m))"
    using Validate_cases [of lib "initial lib" inputs rules] by auto
qed

theorem Validate_panics_iff_witness:
  "Validate offline (initial offline) [''name'' \<mapsto> ''Bob''] [(''name'', ''alpha|max_chars:5'')]
     = Inl IndexOutOfRange
   \<and> evaluated [''name'' \<mapsto> ''Bob''] (''name'', ''alpha|max_chars:5'')
   \<and> hitsDefect ''max_chars:5''
   \<and> \<not> hitsDefect ''max_chars:5,6''
   \<and> Validate offline (initial offline) [''name'' \<mapsto> ''Bob''] [(''name'', ''alpha|max_chars:5,6'')]
     = Inr (False, [(''name'', ''The name is invalid.'')])"
proof -
  have d: "hitsDefect ''max_chars:5''" "\<not> hitsDefect ''max_chars:5,6''" "\<not> hitsDefect ''alpha''"
    by (simp_all add: hitsDefect_def splitRuleParams_def index_def)
  have e: "evaluated [''name'' \<mapsto> ''Bob''] (''name'', ''alpha|max_chars:5'')"
    by (simp add: evaluated_def)
  have run: "Validate offline (initial offline) [''name'' \<mapsto> ''Bob'']
      [(''name'', ''alpha|max_chars:5,6'')]
     = Inr (False, [(''name'', ''The name is invalid.'')])"
    by (simp add: Validate_def run_defs initial_def builtinValidators_def builtinMessages_def
        validateMaxChars_def)
  from Validate_panics_iff [of offline "[''name'' \<mapsto> ''Bob'']" "[(''name'', ''alpha|max_chars:5'')]"]
    d e run
  show ?thesis by simp
qed

section \<open>Which rules run for a field\<close>

text \<open>
  C3. Take a field whose rule string has \<open>required\<close> among its tokens and which the
  inputs do not hold. Its visit records the message of the rule \<open>required\<close> for the
  field and returns, whatever \<open>validators\<close> holds: no rule of the field is
  evaluated. So \<open>Validate\<close>, unless another field makes it panic, reports failure
  and returns that message for the field.
\<close>

theorem required_absent:
  assumes "stringInSlice ''required'' (Split r CHR ''|'')"
    and "inputs f = None"
    and "(f, r) \<in> set rules"
    and "distinct (map fst rules)"
  shows "(\<forall>vs. fieldStep lib (st\<lparr>validators := vs\<rparr>) inputs (f, r) msgs =
            Inr (AList.update f (buildErrorMessage lib st f ''required'' []) msgs))
    \<and> (Validate lib st inputs rules = Inl IndexOutOfRange
        \<or> (\<exists>m. Validate lib st inputs rules = Inr (False, m)
             \<and> map_of m f = Some (buildErrorMessage lib st f ''required'' [])))"
proof
  show "\<forall>vs. fieldStep lib (st\<lparr>validators := vs\<rparr>) inputs (f, r) msgs =
            Inr (AList.update f (buildErrorMessage lib st f ''required'' []) msgs)"
    by (simp add: buildErrorMessage_validators
        fieldStep_required_absent [where r = r and inputs = inputs and f = f, OF assms(1,2)])
next
  let ?msg = "buildErrorMessage lib st f ''required'' []"
  from Validate_cases [of lib st inputs rules]
  show "Validate lib st inputs rules = Inl IndexOutOfRange
        \<or> (\<exists>m. Validate lib st inputs rules = Inr (False, m) \<and> map_of m f = Some ?msg)"
  proof
    assume "Validate lib st inputs rules = Inl IndexOutOfRange"
    then show ?thesis ..
  next
    assume "\<exists>m. fieldsLoop lib st inputs rules [] = Inr m
      \<and> Validate lib st inputs rules = Inr (m = [], m)"
    then obtain m where loop: "fieldsLoop lib st inputs rules [] = Inr m"
      and res: "Validate lib st inputs rules = Inr (m = [], m)"
      by blast
    from fieldsLoop_field [OF loop assms(4,3)]
    obtain m1 m2 where step: "fieldStep lib st inputs (f, r) m1 = Inr m2"
      and m2: "map_of m f = map_of m2 f"
      by blast
    from step fieldStep_required_absent [where r = r and inputs = inputs and f = f and lib = lib and st = st and msgs = m1, OF assms(1,2)]
    have "m2 = AList.update f ?msg m1" by simp
    with m2 have f: "map_of m f = Some ?msg" by (simp add: update_conv')
    then have "m \<noteq> []" by auto
    with res f show ?thesis by auto
  qed
qed

theorem required_absent_witness:
  "stringInSlice ''required'' (Split ''required|alpha|min_chars:3'' CHR ''|'')
   \<and> [''nick'' \<mapsto> ''Bob''] ''name'' = None
   \<and> Validate offline (initial offline) [''nick'' \<mapsto> ''Bob'']
        [(''nick'', ''alpha''), (''name'', ''required|alpha|min_chars:3'')]
      = Inr (False, [(''name'', ''The name field is required.'')])"
proof -
  have req: "stringInSlice ''required'' (Split ''required|alpha|min_chars:3'' CHR ''|'')"
    and absent: "[''nick'' \<mapsto> ''Bob''] ''name'' = None"
    by simp_all
  have run: "Validate offline (initial offline) [''nick'' \<mapsto> ''Bob'']
        [(''nick'', ''alpha''), (''name'', ''required|alpha|min_chars:3'')]
      = Inr (False, [(''name'', ''The name field is required.'')])"
    by (simp add: Validate_def run_defs)
  from required_absent [where inputs = "[''nick'' \<mapsto> ''Bob'']" and f = "''name''"
      and lib = offline and st = "initial offline", OF req absent, of
      "[(''nick'', ''alpha''), (''name'', ''required|alpha|min_chars:3'')]" "[]"]
    req absent run
  show ?thesis by simp
qed

text \<open>
  C4. Take a field whose rule string has neither \<open>required\<close> nor \<open>always\<close> among
  its tokens and whose value is absent or the empty string. Its visit leaves the
  messages as they are, whatever \<open>validators\<close> holds: no rule of the field is
  evaluated. So \<open>Validate\<close>, unless another field makes it panic, returns no message
  for the field, and with this field alone it succeeds.
\<close>

theorem optional_empty_skipped:
  assumes "\<not> stringInSlice ''required'' (Split r CHR ''|'')"
    and "\<not> stringInSlice ''always'' (Split r CHR ''|'')"
    and "inputs f = None \<or> inputs f = Some []"
    and "(f, r) \<in> set rules"
    and "distinct (map fst rules)"
  shows "(\<forall>vs. fieldStep lib (st\<lparr>validators := vs\<rparr>) inputs (f, r) msgs = Inr msgs)
    \<and> (Validate lib st inputs rules = Inl IndexOutOfRange
        \<or> (\<exists>ok m. Validate lib st inputs rules = Inr (ok, m) \<and> map_of m f = None))
    \<and> Validate lib st inputs [(f, r)] = Inr (True, [])"
proof (intro conjI)
  show "\<forall>vs. fieldStep lib (st\<lparr>validators := vs\<rparr>) inputs (f, r) msgs = Inr msgs"
    by (simp add: fieldStep_skip [where r = r and inputs = inputs and f = f, OF assms(1-3)])
next
  from Validate_cases [of lib st inputs rules]
  show "Validate lib st inputs rules = Inl IndexOutOfRange
        \<or> (\<exists>ok m. Validate lib st inputs rules = Inr (ok, m) \<and> map_of m f = None)"
  proof
    assume "Validate lib st inputs rules = Inl IndexOutOfRange"
    then show ?thesis ..
  next
    assume "\<exists>m. fieldsLoop lib st inputs rules [] = Inr m
      \<and> Validate lib st inputs rules = Inr (m = [], m)"
    then obtain m where loop: "fieldsLoop lib st inputs rules [] = Inr m"
      and res: "Validate lib st inputs rules = Inr (m = [], m)"
      by blast
    from fieldsLoop_field [OF loop assms(5,4)]
    obtain m1 m2 where m1: "map_of m1 f = map_of [] f"
      and step: "fieldStep lib st inputs (f, r) m1 = Inr m2"
      and m2: "map_of m f = map_of m2 f"
      by blast
    from step fieldStep_skip [where r = r and inputs = inputs and f = f and lib = lib and st = st and msgs = m1, OF assms(1-3)] have "m2 = m1" by simp
    with m1 m2 have "map_of m f = None" by simp
    with res show ?thesis by blast
  qed
next
  show "Validate lib st inputs [(f, r)] = Inr (True, [])"
    using fieldStep_skip [where r = r and inputs = inputs and f = f and lib = lib and st = st and msgs = "[]", OF assms(1-3)] by (simp add: Validate_def)
qed

theorem optional_empty_skipped_witness:
  "\<not> stringInSlice ''required'' (Split ''email|max_chars:5'' CHR ''|'')
   \<and> \<not> stringInSlice ''always'' (Split ''email|max_chars:5'' CHR ''|'')
   \<and> [''name'' \<mapsto> ''Bob''] ''email'' = None
   \<and> Validate offline (initial offline) [''name'' \<mapsto> ''Bob'']
        [(''email'', ''email|max_chars:5''), (''name'', ''required'')]
      = Inr (True, [])
   \<and> [''email'' \<mapsto> [], ''name'' \<mapsto> ''Bob''] ''email'' = Some []
   \<and> Validate offline (initial offline) [''email'' \<mapsto> [], ''name'' \<mapsto> ''Bob'']
        [(''email'', ''email|max_chars:5''), (''name'', ''required'')]
      = Inr (True, [])"
proof -
  let ?rules = "[(''email'', ''email|max_chars:5''), (''name'', ''required'')]"
  have opt: "\<not> stringInSlice ''required'' (Split ''email|max_chars:5'' CHR ''|'')"
    and no_always: "\<not> stringInSlice ''always'' (Split ''email|max_chars:5'' CHR ''|'')"
    and absent: "[''name'' \<mapsto> ''Bob''] ''email'' = None
      \<or> [''name'' \<mapsto> ''Bob''] ''email'' = Some []"
    and empty: "[''email'' \<mapsto> [], ''name'' \<mapsto> ''Bob''] ''email'' = None
      \<or> [''email'' \<mapsto> [], ''name'' \<mapsto> ''Bob''] ''email'' = Some []"
    by simp_all
  have run: "Validate offline (initial offline) [''name'' \<mapsto> ''Bob''] ?rules = Inr (True, [])"
    "Validate offline (initial offline) [''email'' \<mapsto> [], ''name'' \<mapsto> ''Bob''] ?rules
       = Inr (True, [])"
    by (simp_all add: Validate_def run_defs)
  from optional_empty_skipped [where inputs = "[''name'' \<mapsto> ''Bob'']" and f = "''email''"
      and lib = offline and st = "initial offline", OF opt no_always absent, of ?rules "[]"]
    optional_empty_skipped [where inputs = "[''email'' \<mapsto> [], ''name'' \<mapsto> ''Bob'']"
      and f = "''email''" and lib = offline and st = "initial offline",
      OF opt no_always empty, of ?rules "[]"]
    opt no_always run
  show ?thesis by simp
qed

text \<open>
  C5. A token whose rule name is not registered has no effect where it is evaluated:
  the inner loop gives the same result with the token as without it, the token neither
  fails nor panics, and a field all of whose tokens are unknown gets no message and
  validates. The last part needs the rule \<open>required\<close> to be registered, since
  \<open>Validate\<close> looks for that token before it evaluates any; it is registered from the
  start, and \<open>AddValidator\<close> removes nothing.
\<close>

theorem unknown_rule_ignored:
  assumes "unknown st t"
  shows "rulesLoop lib st inputs f v (before @ t # after) msgs =
           rulesLoop lib st inputs f v (before @ after) msgs
    \<and> \<not> fails st inputs f v t \<and> \<not> panics st inputs f v t
    \<and> (list_all (unknown st) (Split r CHR ''|'') \<and> validators st ''required'' \<noteq> None \<longrightarrow>
         Validate lib st inputs [(f, r)] = Inr (True, []))
    \<and> validators (initial lib) ''required'' \<noteq> None
    \<and> (validators st ''required'' \<noteq> None \<longrightarrow>
         validators (AddValidator st name fn message) ''required'' \<noteq> None)"
proof (intro conjI impI)
  show "rulesLoop lib st inputs f v (before @ t # after) msgs =
           rulesLoop lib st inputs f v (before @ after) msgs"
  proof -
    have "rulesLoop lib st inputs f v (t # after) = rulesLoop lib st inputs f v after"
      by (rule ext) (rule rulesLoop_unknown [OF assms])
    then show ?thesis
      by (simp only: rulesLoop_append [of _ _ _ _ _ before])
  qed
next
  from assms have "verdict st inputs f v t = None"
    by (auto simp: unknown_def verdict_def split: sum.splits)
  then show "\<not> fails st inputs f v t" and "\<not> panics st inputs f v t"
    by (simp_all add: fails_def panics_def)
next
  assume "list_all (unknown st) (Split r CHR ''|'') \<and> validators st ''required'' \<noteq> None"
  then show "Validate lib st inputs [(f, r)] = Inr (True, [])"
    by (simp add: Validate_def fieldStep_all_unknown)
next
  show "validators (initial lib) ''required'' \<noteq> None"
    by (simp add: initial_validators)
next
  assume "validators st ''required'' \<noteq> None"
  then show "validators (AddValidator st name fn message) ''required'' \<noteq> None"
    by (simp add: AddValidator_def)
qed

theorem unknown_rule_ignored_witness:
  "unknown (initial offline) ''frobnicate:1,2''
   \<and> rulesLoop offline (initial offline) [''name'' \<mapsto> ''Bob1''] ''name'' ''Bob1''
        [''alpha'', ''frobnicate:1,2'', ''required''] []
      = Inr [(''name'', ''The name may only contain letters.'')]
   \<and> rulesLoop offline (initial offline) [''name'' \<mapsto> ''Bob1''] ''name'' ''Bob1''
        [''alpha'', ''required''] []
      = Inr [(''name'', ''The name may only contain letters.'')]
   \<and> Validate offline (initial offline) [''name'' \<mapsto> ''Bob1'']
        [(''name'', ''always|frobnicate:1,2'')]
      = Inr (True, [])"
proof -
  have u: "unknown (initial offline) ''frobnicate:1,2''"
    by (simp add: unknown_def run_defs)
  have all: "list_all (unknown (initial offline)) (Split ''always|frobnicate:1,2'' CHR ''|'')
      \<and> validators (initial offline) ''required'' \<noteq> None"
    by (simp add: unknown_def run_defs)
  have without: "rulesLoop offline (initial offline) [''name'' \<mapsto> ''Bob1''] ''name'' ''Bob1''
        ([''alpha''] @ [''required'']) []
      = Inr [(''name'', ''The name may only contain letters.'')]"
    by (simp add: run_defs)
  from unknown_rule_ignored [OF u, where lib = offline and inputs = "[''name'' \<mapsto> ''Bob1'']"
      and f = "''name''" and v = "''Bob1''" and before = "[''alpha'']" and after = "[''required'']"
      and msgs = "[]" and r = "''always|frobnicate:1,2''"] u all without
  show ?thesis by simp
qed

text \<open>
  C6. Within one field the rules run from left to right: the loop over \<open>rs @ rs'\<close>
  is the loop over \<open>rs\<close> followed by the loop over \<open>rs'\<close> on the messages that
  the first left. When no rule panics, the field's message at the end is the one of the
  last failing rule of the list, each failing rule having replaced what was recorded
  for the field before, and the messages are unchanged when no rule fails; when a rule
  panics, so does the loop. The messages that \<open>Validate\<close> returns hold at most one
  entry per field. For a field whose rules \<open>Validate\<close> evaluates, the list is its rule
  string split at \<open>|\<close>, in that order: the visit of the field leaves the message of
  the last failing token of the rule string, \<open>Validate\<close> on that field alone returns
  exactly that one message (or none, and success), and among other fields it returns
  that message for the field unless it panics.
\<close>

theorem last_failing_rule_wins:
  "(list_all (\<lambda>r. \<not> panics st inputs f v r) rs \<longrightarrow>
      rulesLoop lib st inputs f v rs msgs =
        Inr (if filter (fails st inputs f v) rs = [] then msgs
             else AList.update f
                    (ruleMessage lib st f (last (filter (fails st inputs f v) rs))) msgs))
   \<and> (\<not> list_all (\<lambda>r. \<not> panics st inputs f v r) rs \<longrightarrow>
      rulesLoop lib st inputs f v rs msgs = Inl IndexOutOfRange)
   \<and> rulesLoop lib st inputs f v (rs @ rs') msgs =
       andThen (rulesLoop lib st inputs f v rs msgs) (rulesLoop lib st inputs f v rs')
   \<and> (\<forall>ok m. Validate lib st inputs rules = Inr (ok, m) \<longrightarrow> distinct (map fst m))
   \<and> (evaluated inputs (f, r) \<and> v = (case inputs f of None \<Rightarrow> [] | Some x \<Rightarrow> x)
        \<and> list_all (\<lambda>t. \<not> panics st inputs f v t) (Split r CHR ''|'') \<longrightarrow>
      fieldStep lib st inputs (f, r) msgs =
        Inr (if filter (fails st inputs f v) (Split r CHR ''|'') = [] then msgs
             else AList.update f
                    (ruleMessage lib st f (last (filter (fails st inputs f v) (Split r CHR ''|''))))
                    msgs)
      \<and> Validate lib st inputs [(f, r)] =
        Inr (filter (fails st inputs f v) (Split r CHR ''|'') = [],
             if filter (fails st inputs f v) (Split r CHR ''|'') = [] then []
             else [(f, ruleMessage lib st f
                         (last (filter (fails st inputs f v) (Split r CHR ''|''))))])
      \<and> ((f, r) \<in> set rules \<and> distinct (map fst rules) \<longrightarrow>
          Validate lib st inputs rules = Inl IndexOutOfRange
          \<or> (\<exists>ok m. Validate lib st inputs rules = Inr (ok, m)
               \<and> map_of m f =
                   (if filter (fails st inputs f v) (Split r CHR ''|'') = [] then None
                    else Some (ruleMessage lib st f
                           (last (filter (fails st inputs f v) (Split r CHR ''|''))))))))"
proof (intro conjI impI allI)
  assume "list_all (\<lambda>r. \<not> panics st inputs f v r) rs"
  then show "rulesLoop lib st inputs f v rs msgs =
        Inr (if filter (fails st inputs f v) rs = [] then msgs
             else AList.update f
                    (ruleMessage lib st f (last (filter (fails st inputs f v) rs))) msgs)"
    by (rule rulesLoop_last_failing)
next
  assume "\<not> list_all (\<lambda>r. \<not> panics st inputs f v r) rs"
  then show "rulesLoop lib st inputs f v rs msgs = Inl IndexOutOfRange"
    by (rule rulesLoop_panics)
next
  show "rulesLoop lib st inputs f v (rs @ rs') msgs =
       andThen (rulesLoop lib st inputs f v rs msgs) (rulesLoop lib st inputs f v rs')"
    by (rule rulesLoop_append)
next
  fix ok m
  assume "Validate lib st inputs rules = Inr (ok, m)"
  then have "fieldsLoop lib st inputs rules [] = Inr m"
    by (auto simp: Validate_def andThen_eq_Inr)
  from fieldsLoop_distinct [OF this] show "distinct (map fst m)" by simp
next
  let ?ts = "Split r CHR ''|''"
  let ?fs = "filter (fails st inputs f v) ?ts"
  let ?msg = "ruleMessage lib st f (last ?fs)"
  assume a: "evaluated inputs (f, r) \<and> v = (case inputs f of None \<Rightarrow> [] | Some x \<Rightarrow> x)
        \<and> list_all (\<lambda>t. \<not> panics st inputs f v t) ?ts"
  from a have ev: "evaluated inputs (f, r)"
    by (rule conjunct1)
  from a have v: "v = (case inputs f of None \<Rightarrow> [] | Some x \<Rightarrow> x)"
    by (rule conjunct1 [OF conjunct2])
  from a have quiet: "list_all (\<lambda>t. \<not> panics st inputs f v t) ?ts"
    by (rule conjunct2 [OF conjunct2])
  have step: "fieldStep lib st inputs (f, r) ms =
        Inr (if ?fs = [] then ms else AList.update f ?msg ms)" for ms
    using fieldStep_evaluated [OF ev, of lib st ms] rulesLoop_last_failing [OF quiet, of lib ms]
    by (simp only: v [symmetric])
  show "fieldStep lib st inputs (f, r) msgs =
        Inr (if ?fs = [] then msgs else AList.update f ?msg msgs)"
    by (rule step)
  show "Validate lib st inputs [(f, r)] =
        Inr (?fs = [], if ?fs = [] then [] else [(f, ?msg)])"
    by (simp add: Validate_def step)
  show "Validate lib st inputs rules = Inl IndexOutOfRange
          \<or> (\<exists>ok m. Validate lib st inputs rules = Inr (ok, m)
               \<and> map_of m f = (if ?fs = [] then None else Some ?msg))"
    if b: "(f, r) \<in> set rules \<and> distinct (map fst rules)"
  proof -
    from Validate_cases [of lib st inputs rules] show ?thesis
    proof
      assume "Validate lib st inputs rules = Inl IndexOutOfRange"
      then show ?thesis ..
    next
      assume "\<exists>m. fieldsLoop lib st inputs rules [] = Inr m
        \<and> Validate lib st inputs rules = Inr (m = [], m)"
      then obtain m where loop: "fieldsLoop lib st inputs rules [] = Inr m"
        and res: "Validate lib st inputs rules = Inr (m = [], m)"
        by blast
      from b have mem: "(f, r) \<in> set rules" and d: "distinct (map fst rules)" by simp_all
      from fieldsLoop_field [OF loop d mem]
      obtain m1 m2 where m1: "map_of m1 f = map_of [] f"
        and st: "fieldStep lib st inputs (f, r) m1 = Inr m2"
        and m2: "map_of m f = map_of m2 f"
        by blast
      from st step [of m1] have "m2 = (if ?fs = [] then m1 else AList.update f ?msg m1)"
        by simp
      with m1 m2 have "map_of m f = (if ?fs = [] then None else Some ?msg)"
        by (simp add: update_conv')
      with res show ?thesis by blast
    qed
  qed
qed

theorem last_failing_rule_wins_witness:
  "list_all (\<lambda>r. \<not> panics (initial offline) [''name'' \<mapsto> ''Bob1''] ''name'' ''Bob1'' r)
     [''alpha'', ''accepted'', ''required'']
   \<and> filter (fails (initial offline) [''name'' \<mapsto> ''Bob1''] ''name'' ''Bob1'')
        [''alpha'', ''accepted'', ''required''] = [''alpha'', ''accepted'']
   \<and> rulesLoop offline (initial offline) [''name'' \<mapsto> ''Bob1''] ''name'' ''Bob1''
        [''alpha'', ''accepted'', ''required''] []
      = Inr [(''name'', ''The name must be accepted.'')]
   \<and> \<not> list_all (\<lambda>r. \<not> panics (initial offline) [''name'' \<mapsto> ''Bob1''] ''name'' ''Bob1'' r)
     [''alpha'', ''min_chars:2'', ''required'']
   \<and> rulesLoop offline (initial offline) [''name'' \<mapsto> ''Bob1''] ''name'' ''Bob1''
        [''alpha'', ''min_chars:2'', ''required''] []
      = Inl IndexOutOfRange
   \<and> evaluated [''name'' \<mapsto> ''Bob1''] (''name'', ''alpha|accepted|required'')
   \<and> Split ''alpha|accepted|required'' CHR ''|'' = [''alpha'', ''accepted'', ''required'']
   \<and> fieldStep offline (initial offline) [''name'' \<mapsto> ''Bob1'']
        (''name'', ''alpha|accepted|required'') [(''name'', ''earlier'')]
      = Inr [(''name'', ''The name must be accepted.'')]
   \<and> Validate offline (initial offline) [''name'' \<mapsto> ''Bob1'']
        [(''name'', ''alpha|accepted|required'')]
      = Inr (False, [(''name'', ''The name must be accepted.'')])
   \<and> Validate offline (initial offline) [''name'' \<mapsto> ''Bob1'']
        [(''name'', ''accepted|alpha|required'')]
      = Inr (False, [(''name'', ''The name may only contain letters.'')])"
proof -
  let ?st = "initial offline" and ?inputs = "[''name'' \<mapsto> ''Bob1'']"
  have v: "verdict ?st ?inputs ''name'' ''Bob1'' ''alpha'' = Some (Inr False)"
    "verdict ?st ?inputs ''name'' ''Bob1'' ''accepted'' = Some (Inr False)"
    "verdict ?st ?inputs ''name'' ''Bob1'' ''required'' = Some (Inr True)"
    "verdict ?st ?inputs ''name'' ''Bob1'' ''min_chars:2'' = Some (Inl IndexOutOfRange)"
    by (simp_all add: verdict_def run_defs)
  have quiet: "list_all (\<lambda>r. \<not> panics ?st ?inputs ''name'' ''Bob1'' r)
     [''alpha'', ''accepted'', ''required'']"
    and failing: "filter (fails ?st ?inputs ''name'' ''Bob1'')
        [''alpha'', ''accepted'', ''required''] = [''alpha'', ''accepted'']"
    and loud: "\<not> list_all (\<lambda>r. \<not> panics ?st ?inputs ''name'' ''Bob1'' r)
     [''alpha'', ''min_chars:2'', ''required'']"
    and quiet': "list_all (\<lambda>r. \<not> panics ?st ?inputs ''name'' ''Bob1'' r)
     [''accepted'', ''alpha'', ''required'']"
    and failing': "filter (fails ?st ?inputs ''name'' ''Bob1'')
        [''accepted'', ''alpha'', ''required''] = [''accepted'', ''alpha'']"
    by (simp_all add: panics_def fails_def v)
  have msg: "ruleMessage offline ?st ''name'' ''accepted'' = ''The name must be accepted.''"
    "ruleMessage offline ?st ''name'' ''alpha'' = ''The name may only contain letters.''"
    by (simp_all add: ruleMessage_def run_defs)
  have sp: "Split ''alpha|accepted|required'' CHR ''|'' = [''alpha'', ''accepted'', ''required'']"
    "Split ''accepted|alpha|required'' CHR ''|'' = [''accepted'', ''alpha'', ''required'']"
    by simp_all
  have ev: "evaluated ?inputs (''name'', ''alpha|accepted|required'')"
    "evaluated ?inputs (''name'', ''accepted|alpha|required'')"
    by (simp_all add: evaluated_def)
  have fv: "(case ?inputs ''name'' of None \<Rightarrow> [] | Some x \<Rightarrow> x) = ''Bob1''"
    by simp
  from last_failing_rule_wins [where st = ?st and inputs = ?inputs and f = "''name''"
      and v = "''Bob1''" and rs = "[''alpha'', ''accepted'', ''required'']" and lib = offline
      and msgs = "[(''name'', ''earlier'')]" and rs' = "[]" and rules = "[]"
      and r = "''alpha|accepted|required''"]
    quiet failing msg sp ev fv
  have order1: "fieldStep offline ?st ?inputs (''name'', ''alpha|accepted|required'')
        [(''name'', ''earlier'')]
      = Inr [(''name'', ''The name must be accepted.'')]
    \<and> Validate offline ?st ?inputs [(''name'', ''alpha|accepted|required'')]
      = Inr (False, [(''name'', ''The name must be accepted.'')])"
    by simp
  from last_failing_rule_wins [where st = ?st and inputs = ?inputs and f = "''name''"
      and v = "''Bob1''" and rs = "[]" and lib = offline
      and msgs = "[]" and rs' = "[]" and rules = "[]"
      and r = "''accepted|alpha|required''"]
    quiet' failing' msg sp ev fv
  have order2: "Validate offline ?st ?inputs [(''name'', ''accepted|alpha|required'')]
      = Inr (False, [(''name'', ''The name may only contain letters.'')])"
    by simp
  from last_failing_rule_wins [where st = ?st and inputs = ?inputs and f = "''name''"
      and v = "''Bob1''" and rs = "[''alpha'', ''accepted'', ''required'']" and lib = offline
      and msgs = "[]" and rs' = "[]" and rules = "[]" and r = "[]"]
    last_failing_rule_wins [where st = ?st and inputs = ?inputs and f = "''name''"
      and v = "''Bob1''" and rs = "[''alpha'', ''min_chars:2'', ''required'']" and lib = offline
      and msgs = "[]" and rs' = "[]" and rules = "[]" and r = "[]"]
    quiet failing loud msg
  have loops: "rulesLoop offline ?st ?inputs ''name'' ''Bob1''
        [''alpha'', ''accepted'', ''required''] []
      = Inr [(''name'', ''The name must be accepted.'')]
    \<and> rulesLoop offline ?st ?inputs ''name'' ''Bob1''
        [''alpha'', ''min_chars:2'', ''required''] []
      = Inl IndexOutOfRange"
    by simp
  from quiet failing loud ev(1) sp(1) order1 order2 loops show ?thesis
    by (simp only: simp_thms)
qed

section \<open>Messages\<close>

text \<open>
  Where the guard of \<open>buildErrorMessage\<close> does its work. When the rule has no
  template, or the number of \<open>%s\<close> in its template is not one more than the number
  of parameters, the message is \<open>The <field> is invalid.\<close> When the number fits and
  every percent sign of the template begins a \<open>%s\<close>, as in each built-in template,
  the message is the template with the field name and then the parameters substituted
  for the placeholders in order.
\<close>

theorem buildErrorMessage_cases:
  "(messages st rule = None \<longrightarrow>
      buildErrorMessage lib st f rule params = ''The '' @ f @ '' is invalid.'')
   \<and> (messages st rule = Some t \<and> Count t ''%s'' \<noteq> 1 + length params \<longrightarrow>
      buildErrorMessage lib st f rule params = ''The '' @ f @ '' is invalid.'')
   \<and> (messages st rule = Some t \<and> Count t ''%s'' = 1 + length params \<and> plain t \<longrightarrow>
      buildErrorMessage lib st f rule params = substitute t (f # params))
   \<and> list_all (\<lambda>entry. plain (snd entry)) builtinMessages"
proof (intro conjI impI)
  assume "messages st rule = None"
  then show "buildErrorMessage lib st f rule params = ''The '' @ f @ '' is invalid.''"
    by (simp add: buildErrorMessage_def Sprintf_generic)
next
  assume "messages st rule = Some t \<and> Count t ''%s'' \<noteq> 1 + length params"
  then show "buildErrorMessage lib st f rule params = ''The '' @ f @ '' is invalid.''"
    by (simp add: buildErrorMessage_def Sprintf_generic)
next
  assume a: "messages st rule = Some t \<and> Count t ''%s'' = 1 + length params \<and> plain t"
  then have "doPrintf t (f # params) = Some (substitute t (f # params))"
    by (intro doPrintf_plain) simp_all
  with a show "buildErrorMessage lib st f rule params = substitute t (f # params)"
    by (simp add: buildErrorMessage_def Sprintf_def)
next
  show "list_all (\<lambda>entry. plain (snd entry)) builtinMessages"
    by (simp add: builtinMessages_def)
qed

theorem buildErrorMessage_cases_witness:
  "buildErrorMessage offline (initial offline) ''age'' ''frobnicate'' [''1''] = ''The age is invalid.''
   \<and> buildErrorMessage offline (initial offline) ''code'' ''chars_between'' [''3'', ''6'']
       = ''The code is invalid.''
   \<and> buildErrorMessage offline (initial offline) ''confirm'' ''same'' [''password'']
       = ''The confirm and password must match.''"
proof -
  let ?between = "''The %s field must have between %s characters.''"
  let ?same = "''The %s and %s must match.''"
  have none: "messages (initial offline) ''frobnicate'' = None"
    by (rule initial_messages)
  have short: "messages (initial offline) ''chars_between'' = Some ?between
      \<and> Count ?between ''%s'' \<noteq> 1 + length [''3'', ''6'']"
    by (simp add: initial_messages)
  have fits: "messages (initial offline) ''same'' = Some ?same
      \<and> Count ?same ''%s'' = 1 + length [''password''] \<and> plain ?same"
    by (simp add: initial_messages)
  have subst: "substitute ?same [''confirm'', ''password''] = ''The confirm and password must match.''"
    by simp
  from buildErrorMessage_cases [where st = "initial offline" and rule = "''frobnicate''"
      and lib = offline and f = "''age''" and params = "[''1'']"] none
  have 1: "buildErrorMessage offline (initial offline) ''age'' ''frobnicate'' [''1'']
      = ''The age is invalid.''"
    by simp
  from buildErrorMessage_cases [where st = "initial offline" and rule = "''chars_between''"
      and lib = offline and f = "''code''" and params = "[''3'', ''6'']" and t = ?between] short
  have 2: "buildErrorMessage offline (initial offline) ''code'' ''chars_between'' [''3'', ''6'']
      = ''The code is invalid.''"
    by simp
  from buildErrorMessage_cases [where st = "initial offline" and rule = "''same''"
      and lib = offline and f = "''confirm''" and params = "[''password'']" and t = ?same]
    fits subst
  have 3: "buildErrorMessage offline (initial offline) ''confirm'' ''same'' [''password'']
      = ''The confirm and password must match.''"
    by (simp add: Sprintf_def extraArgs_def)
  from 1 2 3 show ?thesis by simp
qed

text \<open>
  C7. The claim is that a template whose count of \<open>%s\<close> is one more than the number
  of parameters has the field name and the parameters substituted into it, and that
  every other case gives \<open>The <field> is invalid.\<close> The guard of the code counts the
  substring \<open>%s\<close> with \<open>strings.Count\<close>, while \<open>fmt.Sprintf\<close> reads \<open>%%\<close> as
  a percent sign. For the template \<open>%%s\<close>, registered with \<open>AddValidator\<close>, the
  count is 1, so with no parameters the guard lets the template through; \<open>Sprintf\<close>
  then finds no placeholder, prints \<open>%s\<close> and reports the field name as an operand
  left over. The message is neither the template with the field name substituted
  (\<open>%f\<close>) nor the generic message, and \<open>Validate\<close> returns it.
\<close>

theorem escaped_percent_passes_guard:
  "messages (AddValidator (initial lib) ''pct'' validateAccepted ''%%s'') ''pct'' = Some ''%%s''
   \<and> Count ''%%s'' ''%s'' = 1 + length ([] :: string list)
   \<and> buildErrorMessage lib (AddValidator (initial lib) ''pct'' validateAccepted ''%%s'')
        ''f'' ''pct'' [] = ''%s%!(EXTRA string=f)''
   \<and> substitute ''%%s'' [''f''] = ''%f''
   \<and> Validate lib (AddValidator (initial lib) ''pct'' validateAccepted ''%%s'')
        [''f'' \<mapsto> ''no''] [(''f'', ''pct'')]
       = Inr (False, [(''f'', ''%s%!(EXTRA string=f)'')])"
  by (simp add: AddValidator_def buildErrorMessage_def Sprintf_def extraArgs_def Validate_def
      fieldStep_def splitRuleParams_def validateAccepted_def)

section \<open>The result of Validate\<close>

text \<open>
  C10. When \<open>Validate\<close> returns, every key of the messages is a field name of the
  rules, so a field without a rule string has no message, whether the inputs hold it or
  not; no field has two messages; and the success flag is true exactly when the
  messages are empty.
\<close>

theorem messages_keys:
  assumes "Validate lib st inputs rules = Inr (ok, m)"
  shows "fst ` set m \<subseteq> fst ` set rules
    \<and> (\<forall>g. g \<notin> fst ` set rules \<longrightarrow> map_of m g = None)
    \<and> distinct (map fst m)
    \<and> (ok \<longleftrightarrow> m = [])
    \<and> (ok \<longleftrightarrow> map_of m = Map.empty)"
proof -
  from assms have loop: "fieldsLoop lib st inputs rules [] = Inr m" and ok: "ok \<longleftrightarrow> m = []"
    by (auto simp: Validate_def andThen_eq_Inr)
  from fieldsLoop_keys [OF loop] have keys: "fst ` set m \<subseteq> fst ` set rules" by simp
  have none: "\<forall>g. g \<notin> fst ` set rules \<longrightarrow> map_of m g = None"
    using fieldsLoop_frame [OF loop] by simp
  have d: "distinct (map fst m)"
    using fieldsLoop_distinct [OF loop] by simp
  have "m = [] \<longleftrightarrow> map_of m = Map.empty"
  proof (cases m)
    case Nil
    then show ?thesis by simp
  next
    case (Cons p ps)
    then have "map_of m (fst p) = Some (snd p)" by (cases p) simp
    have "map_of m \<noteq> Map.empty"
    proof
      assume "map_of m = Map.empty"
      then have "map_of m (fst p) = None" by (simp only:)
      with \<open>map_of m (fst p) = Some (snd p)\<close> show False by simp
    qed
    moreover from Cons have "m \<noteq> []" by (simp only: list.distinct not_False_eq_True)
    ultimately show ?thesis by blast
  qed
  with keys none d ok show ?thesis by blast
qed

theorem messages_keys_witness:
  "Validate offline (initial offline)
     [''name'' \<mapsto> ''Bob1'', ''terms'' \<mapsto> ''no'', ''extra'' \<mapsto> ''1'']
     [(''name'', ''required|alpha''), (''terms'', ''accepted'')]
   = Inr (False, [(''name'', ''The name may only contain letters.''),
                  (''terms'', ''The terms must be accepted.'')])
   \<and> map_of [(''name'', ''The name may only contain letters.''),
             (''terms'', ''The terms must be accepted.'')] ''extra'' = None"
proof -
  have run: "Validate offline (initial offline)
       [''name'' \<mapsto> ''Bob1'', ''terms'' \<mapsto> ''no'', ''extra'' \<mapsto> ''1'']
       [(''name'', ''required|alpha''), (''terms'', ''accepted'')]
     = Inr (False, [(''name'', ''The name may only contain letters.''),
                    (''terms'', ''The terms must be accepted.'')])"
    by (simp add: Validate_def run_defs)
  from messages_keys [OF run] run show ?thesis by simp
qed

end
